theory Spec2Isabelle
  imports Main "HOL-Library.Sublist" "HOL-Library.Multiset"
begin

section \<open>Strings\<close>

text \<open>
  A JavaScript string is a sequence of UTF-16 code units.  File paths, file contents and
  the names cut out of them are modelled as \<^typ>\<open>string\<close>: every \<^typ>\<open>char\<close> stands for
  the code unit with the same number, so the model covers text whose code units lie in
  U+0000 .. U+00FF.  The built-in string operations below are written out for that range.
\<close>

definition code :: "char \<Rightarrow> nat" where
  "code c = of_char c"

text \<open>The regular expression classes \<open>[a-z]\<close> and \<open>[A-Z]\<close>.\<close>

definition is_lower_az :: "char \<Rightarrow> bool" where
  "is_lower_az c = (97 \<le> code c \<and> code c \<le> 122)"

definition is_upper_AZ :: "char \<Rightarrow> bool" where
  "is_upper_AZ c = (65 \<le> code c \<and> code c \<le> 90)"

text \<open>
  \<open>\s\<close> of ECMAScript regular expressions, below U+0100: tab, line feed, vertical tab,
  form feed, carriage return, space and no-break space.
\<close>

definition is_space :: "char \<Rightarrow> bool" where
  "is_space c = (code c \<in> {9, 10, 11, 12, 13, 32, 160})"

text \<open>
  \<open>String.prototype.toLowerCase\<close>, one code unit at a time: the letters A-Z and the
  Latin-1 capitals U+00C0 .. U+00DE (without the multiplication sign U+00D7) move up by 32.
\<close>

definition lower_char :: "char \<Rightarrow> char" where
  "lower_char c =
     (if (65 \<le> code c \<and> code c \<le> 90) \<or> (192 \<le> code c \<and> code c \<le> 222 \<and> code c \<noteq> 215)
      then char_of (code c + 32) else c)"

definition toLowerCase :: "string \<Rightarrow> string" where
  "toLowerCase s = map lower_char s"

text \<open>\<open>startsWith\<close>, \<open>endsWith\<close> and \<open>includes\<close> of \<open>String.prototype\<close>.\<close>

definition startsWith :: "string \<Rightarrow> string \<Rightarrow> bool" where
  "startsWith s k = (take (length k) s = k)"

definition endsWith :: "string \<Rightarrow> string \<Rightarrow> bool" where
  "endsWith s k = (length k \<le> length s \<and> drop (length s - length k) s = k)"

fun str_includes :: "string \<Rightarrow> string \<Rightarrow> bool" where
  "str_includes [] k = (k = [])"
| "str_includes (c # cs) k = (startsWith (c # cs) k \<or> str_includes cs k)"

text \<open>
  \<open>s.split(/\s+/)\<close>: every maximal run of white space is one separator; a separator at
  the start or at the end leaves an empty string there, and the empty string splits
  into one empty string.
\<close>

function split_ws :: "string \<Rightarrow> string list" where
  "split_ws [] = [[]]"
| "split_ws (c # cs) =
     (if is_space c then [] # split_ws (dropWhile is_space cs)
      else (case split_ws cs of
              w # ws \<Rightarrow> (c # w) # ws
            | [] \<Rightarrow> [[c]]))"
  by pat_completeness auto
termination
  by (relation "measure length") (auto simp: length_dropWhile_le less_Suc_eq_le)

section \<open>Permission and risk inference\<close>

datatype Permission = READ | WRITE | DELETE | EXECUTE | OUTPUT | UNKNOWN

datatype RiskLevel = LOW | MEDIUM | HIGH

definition READ_KEYWORDS :: "string list" where
  "READ_KEYWORDS =
    [''get'', ''read'', ''fetch'', ''list'', ''search'', ''query'', ''find'', ''lookup'',
     ''retrieve'', ''show'', ''display'', ''view'', ''describe'', ''check'', ''inspect'',
     ''count'', ''exists'', ''has'', ''is'', ''can'', ''load'', ''parse'', ''extract'',
     ''select'', ''filter'', ''sort'', ''browse'', ''scan'', ''analyze'', ''validate'']"

definition WRITE_KEYWORDS :: "string list" where
  "WRITE_KEYWORDS =
    [''create'', ''add'', ''insert'', ''write'', ''update'', ''set'', ''put'', ''post'',
     ''save'', ''store'', ''upload'', ''push'', ''modify'', ''edit'', ''change'', ''patch'',
     ''append'', ''register'', ''submit'', ''send'', ''publish'', ''configure'', ''enable'',
     ''disable'', ''toggle'', ''assign'', ''allocate'', ''grant'', ''revoke'']"

definition DELETE_KEYWORDS :: "string list" where
  "DELETE_KEYWORDS =
    [''delete'', ''remove'', ''drop'', ''destroy'', ''truncate'', ''clear'', ''purge'',
     ''wipe'', ''erase'', ''uninstall'', ''terminate'', ''kill'', ''stop'', ''abort'',
     ''cancel'', ''revoke'', ''reset'', ''clean'', ''flush'', ''invalidate'']"

definition EXECUTE_KEYWORDS :: "string list" where
  "EXECUTE_KEYWORDS =
    [''execute'', ''run'', ''eval'', ''shell'', ''exec'', ''spawn'', ''invoke'', ''call'',
     ''trigger'', ''start'', ''launch'', ''deploy'', ''install'', ''migrate'', ''apply'',
     ''process'', ''perform'', ''do'', ''action'', ''command'', ''script'', ''code'']"

definition OUTPUT_KEYWORDS :: "string list" where
  "OUTPUT_KEYWORDS =
    [''display'', ''show'', ''render'', ''output'', ''print'', ''format'', ''present'',
     ''visualize'', ''chart'', ''graph'', ''report'', ''export'', ''download'']"

text \<open>\<open>PERMISSION_RISK_MAP\<close> and its lookup \<open>inferRisk\<close>.\<close>

fun inferRisk :: "Permission \<Rightarrow> RiskLevel" where
  "inferRisk READ = LOW"
| "inferRisk OUTPUT = LOW"
| "inferRisk WRITE = MEDIUM"
| "inferRisk DELETE = HIGH"
| "inferRisk EXECUTE = HIGH"
| "inferRisk UNKNOWN = MEDIUM"

text \<open>
  \<open>text.replace(/([a-z])([A-Z])/g, '$1 $2')\<close>: the scan goes from left to right; where a
  lower-case letter is followed by an upper-case one, both are consumed and written back
  with a space between them, and the scan goes on behind the pair.
\<close>

fun camel_replace :: "string \<Rightarrow> string" where
  "camel_replace (a # b # cs) =
     (if is_lower_az a \<and> is_upper_AZ b then a # CHR '' '' # b # camel_replace cs
      else a # camel_replace (b # cs))"
| "camel_replace cs = cs"

text \<open>\<open>.replace(/[_-]/g, ' ')\<close>.\<close>

definition sep_replace :: "string \<Rightarrow> string" where
  "sep_replace s = map (\<lambda>c. if c = CHR ''_'' \<or> c = CHR ''-'' then CHR '' '' else c) s"

definition tokenize :: "string \<Rightarrow> string list" where
  "tokenize text =
     filter (\<lambda>w. w \<noteq> []) (split_ws (toLowerCase (sep_replace (camel_replace text))))"

definition matchesKeywords :: "string list \<Rightarrow> string list \<Rightarrow> bool" where
  "matchesKeywords tokens keywords =
     list_ex (\<lambda>token. list_ex (\<lambda>keyword.
        token = keyword \<or> startsWith token keyword \<or> endsWith token keyword) keywords) tokens"

text \<open>
  The optional description is \<open>None\<close> when the argument is left out; an empty description
  is falsy and contributes no tokens either.
\<close>

definition inferPermission :: "string \<Rightarrow> string option \<Rightarrow> Permission" where
  "inferPermission name description =
     (let nameTokens = tokenize name;
          descTokens = (case description of
                          None \<Rightarrow> []
                        | Some d \<Rightarrow> if d = [] then [] else tokenize d);
          allTokens = nameTokens @ descTokens
      in if matchesKeywords allTokens DELETE_KEYWORDS then DELETE
         else if matchesKeywords allTokens EXECUTE_KEYWORDS then EXECUTE
         else if matchesKeywords allTokens WRITE_KEYWORDS then WRITE
         else if matchesKeywords allTokens OUTPUT_KEYWORDS then OUTPUT
         else if matchesKeywords allTokens READ_KEYWORDS then READ
         else UNKNOWN)"

subsection \<open>Tokenization, as the specification words it\<close>

text \<open>
  A second definition of tokenization, following the specification: a boundary (a space)
  is put at every lower-to-upper transition and in place of every underscore and hyphen,
  the text is cut into its maximal runs of characters that are not white space, and every
  word is put into lower case.
\<close>

definition is_sep :: "char \<Rightarrow> bool" where
  "is_sep c = (c = CHR ''_'' \<or> c = CHR ''-'')"

fun mark_boundaries :: "string \<Rightarrow> string" where
  "mark_boundaries [] = []"
| "mark_boundaries [a] = [if is_sep a then CHR '' '' else a]"
| "mark_boundaries (a # b # cs) =
     (if is_sep a then CHR '' '' # mark_boundaries (b # cs)
      else if is_lower_az a \<and> is_upper_AZ b then a # CHR '' '' # mark_boundaries (b # cs)
      else a # mark_boundaries (b # cs))"

function ws_words :: "string \<Rightarrow> string list" where
  "ws_words s =
     (case dropWhile is_space s of
        [] \<Rightarrow> []
      | c # cs \<Rightarrow> (c # takeWhile (\<lambda>x. \<not> is_space x) cs) # ws_words (dropWhile (\<lambda>x. \<not> is_space x) cs))"
  by pat_completeness auto
termination
proof (relation "measure length", goal_cases)
  case 1 show ?case by simp
next
  case (2 s c cs)
  have "length (dropWhile (\<lambda>x. \<not> is_space x) cs) \<le> length cs"
    by (rule length_dropWhile_le)
  moreover have "length (c # cs) \<le> length s"
    using 2 length_dropWhile_le [of is_space s] by simp
  ultimately show ?case by simp
qed

declare ws_words.simps [simp del]

definition tokenize_spec :: "string \<Rightarrow> string list" where
  "tokenize_spec text = map toLowerCase (ws_words (mark_boundaries text))"

lemma camel_replace_not_lower:
  "\<not> is_lower_az b \<Longrightarrow> camel_replace (b # cs) = b # camel_replace cs"
  by (cases cs) simp_all

lemma upper_not_lower: "is_upper_AZ b \<Longrightarrow> \<not> is_lower_az b"
  by (simp add: is_upper_AZ_def is_lower_az_def)

lemma sep_not_letter: "is_sep c \<Longrightarrow> \<not> is_lower_az c \<and> \<not> is_upper_AZ c"
  by (auto simp: is_sep_def is_upper_AZ_def is_lower_az_def code_def)

lemma mark_boundaries_eq: "sep_replace (camel_replace s) = mark_boundaries s"
proof (induction s rule: mark_boundaries.induct)
  case 1 show ?case by (simp add: sep_replace_def)
next
  case (2 a) show ?case by (simp add: sep_replace_def is_sep_def)
next
  case (3 a b cs)
  show ?case
  proof (cases "is_lower_az a \<and> is_upper_AZ b")
    case True
    then have nb: "\<not> is_lower_az b" by (simp add: upper_not_lower)
    have na: "\<not> is_sep a" using True sep_not_letter by blast
    have nbs: "\<not> is_sep b" using True sep_not_letter by blast
    have "sep_replace (b # camel_replace cs) = mark_boundaries (b # cs)"
      using 3 na True camel_replace_not_lower [OF nb, of cs] by simp
    then show ?thesis using True na nbs
      by (simp add: sep_replace_def is_sep_def)
  next
    case False
    then show ?thesis using 3
      by (auto simp: sep_replace_def is_sep_def)
  qed
qed

lemma split_ws_not_Nil: "split_ws s \<noteq> []"
  by (induction s rule: split_ws.induct) (auto split: list.splits)

lemma ws_words_Nil: "ws_words [] = []"
  by (simp add: ws_words.simps)

lemma ws_words_space: "is_space c \<Longrightarrow> ws_words (c # cs) = ws_words cs"
  by (simp add: ws_words.simps [of "c # cs"] ws_words.simps [of cs])

lemma ws_words_dropWhile: "ws_words (dropWhile is_space s) = ws_words s"
  by (induction s) (simp_all add: ws_words_space)

lemma ws_words_word:
  "\<not> is_space c \<Longrightarrow>
   ws_words (c # cs) = (c # takeWhile (\<lambda>x. \<not> is_space x) cs) # ws_words (dropWhile (\<lambda>x. \<not> is_space x) cs)"
  by (simp add: ws_words.simps [of "c # cs"])

lemma split_ws_shape:
  "hd (split_ws s) = takeWhile (\<lambda>x. \<not> is_space x) s \<and>
   filter (\<lambda>w. w \<noteq> []) (tl (split_ws s)) = ws_words (dropWhile (\<lambda>x. \<not> is_space x) s)"
proof (induction s rule: split_ws.induct)
  case 1
  show ?case by (simp add: ws_words_Nil)
next
  case (2 c cs)
  show ?case
  proof (cases "is_space c")
    case True
    let ?t = "dropWhile is_space cs"
    have ih: "hd (split_ws ?t) = takeWhile (\<lambda>x. \<not> is_space x) ?t \<and>
        filter (\<lambda>w. w \<noteq> []) (tl (split_ws ?t)) = ws_words (dropWhile (\<lambda>x. \<not> is_space x) ?t)"
      using 2(1) True by simp
    obtain w ws where sp: "split_ws ?t = w # ws"
      using split_ws_not_Nil [of ?t] by (cases "split_ws ?t") auto
    have "filter (\<lambda>w. w \<noteq> []) (split_ws ?t) = ws_words ?t"
    proof (cases ?t)
      case Nil
      then show ?thesis by (simp add: ws_words_Nil del: dropWhile_eq_Nil_conv)
    next
      case (Cons d ds)
      then have nd: "\<not> is_space d"
        using hd_dropWhile [of is_space cs] by auto
      show ?thesis using ih sp Cons nd by (simp add: ws_words_word)
    qed
    then show ?thesis using True by (simp add: ws_words_space ws_words_dropWhile)
  next
    case False
    obtain w ws where sp: "split_ws cs = w # ws"
      using split_ws_not_Nil [of cs] by (cases "split_ws cs") auto
    show ?thesis using 2(2) False sp by simp
  qed
qed

lemma split_ws_words: "filter (\<lambda>w. w \<noteq> []) (split_ws s) = ws_words s"
proof -
  obtain w ws where sp: "split_ws s = w # ws"
    using split_ws_not_Nil [of s] by (cases "split_ws s") auto
  show ?thesis
  proof (cases s)
    case Nil
    then show ?thesis by (simp add: ws_words_Nil)
  next
    case (Cons c cs)
    show ?thesis
    proof (cases "is_space c")
      case True
      then show ?thesis using split_ws_shape [of s] sp Cons by simp
    next
      case False
      then show ?thesis using split_ws_shape [of s] sp Cons by (simp add: ws_words_word)
    qed
  qed
qed

lemma code_char_of: "n < 256 \<Longrightarrow> code (char_of n) = n"
  by (simp add: code_def)

lemma is_space_lower_char: "is_space (lower_char c) = is_space c"
proof (cases "(65 \<le> code c \<and> code c \<le> 90) \<or> (192 \<le> code c \<and> code c \<le> 222 \<and> code c \<noteq> 215)")
  case True
  then have "code (lower_char c) = code c + 32"
    by (auto simp: lower_char_def code_char_of)
  then show ?thesis using True by (auto simp: is_space_def)
next
  case False
  then have "lower_char c = c" unfolding lower_char_def by (simp only: if_False)
  then show ?thesis by simp
qed

lemma ws_words_lower:
  "ws_words (map lower_char s) = map (map lower_char) (ws_words s)"
proof (induction s rule: ws_words.induct)
  case (1 s)
  have sp: "is_space \<circ> lower_char = is_space"
    by (rule ext) (simp add: is_space_lower_char)
  have nsp: "(\<lambda>x. \<not> is_space x) \<circ> lower_char = (\<lambda>x. \<not> is_space x)"
    by (rule ext) (simp add: is_space_lower_char)
  show ?case
  proof (cases "dropWhile is_space s")
    case Nil
    then show ?thesis
      by (simp add: ws_words.simps [of s] ws_words.simps [of "map lower_char s"] dropWhile_map sp
            del: dropWhile_eq_Nil_conv)
  next
    case (Cons c cs)
    then show ?thesis using 1 [OF Cons]
      by (simp add: ws_words.simps [of s] ws_words.simps [of "map lower_char s"]
            dropWhile_map takeWhile_map sp nsp)
  qed
qed

lemma tokenize_refines: "tokenize text = tokenize_spec text"
  by (simp add: tokenize_def tokenize_spec_def split_ws_words toLowerCase_def ws_words_lower
        mark_boundaries_eq)

lemma ws_words_chars:
  "w \<in> set (ws_words s) \<Longrightarrow> w \<noteq> [] \<and> set w \<subseteq> set s \<and> (\<forall>c\<in>set w. \<not> is_space c)"
proof (induction s arbitrary: w rule: ws_words.induct)
  case (1 s)
  show ?case
  proof (cases "dropWhile is_space s")
    case Nil
    then have "ws_words s = []" by (simp add: ws_words.simps [of s] del: dropWhile_eq_Nil_conv)
    then show ?thesis using 1(2) by simp
  next
    case (Cons c cs)
    have nc: "\<not> is_space c" using Cons hd_dropWhile [of is_space s] by auto
    have sub: "set (c # cs) \<subseteq> set s"
      using set_dropWhileD [of _ is_space s] Cons by auto
    have eq: "ws_words s = (c # takeWhile (\<lambda>x. \<not> is_space x) cs) # ws_words (dropWhile (\<lambda>x. \<not> is_space x) cs)"
      using Cons by (simp add: ws_words.simps [of s])
    show ?thesis
    proof (cases "w = c # takeWhile (\<lambda>x. \<not> is_space x) cs")
      case True
      have "set (takeWhile (\<lambda>x. \<not> is_space x) cs) \<subseteq> set cs"
        using set_takeWhileD [of _ "\<lambda>x. \<not> is_space x" cs] by auto
      moreover have "\<forall>x\<in>set (takeWhile (\<lambda>x. \<not> is_space x) cs). \<not> is_space x"
        using set_takeWhileD [of _ "\<lambda>x. \<not> is_space x" cs] by auto
      ultimately show ?thesis using True nc sub by auto
    next
      case False
      then have "w \<in> set (ws_words (dropWhile (\<lambda>x. \<not> is_space x) cs))"
        using 1(2) eq by simp
      from 1(1) [OF Cons this]
      have "w \<noteq> [] \<and> set w \<subseteq> set (dropWhile (\<lambda>x. \<not> is_space x) cs) \<and> (\<forall>c\<in>set w. \<not> is_space c)" .
      moreover have "set (dropWhile (\<lambda>x. \<not> is_space x) cs) \<subseteq> set cs"
        using set_dropWhileD [of _ "\<lambda>x. \<not> is_space x" cs] by auto
      ultimately show ?thesis using sub by auto
    qed
  qed
qed

lemma mark_boundaries_no_sep: "c \<in> set (mark_boundaries s) \<Longrightarrow> \<not> is_sep c"
  by (induction s rule: mark_boundaries.induct) (auto simp: is_sep_def split: if_splits)

lemma lower_char_props: "\<not> is_upper_AZ (lower_char c) \<and> (is_sep (lower_char c) \<longrightarrow> is_sep c)"
proof (cases "(65 \<le> code c \<and> code c \<le> 90) \<or> (192 \<le> code c \<and> code c \<le> 222 \<and> code c \<noteq> 215)")
  case True
  then have "code (lower_char c) = code c + 32"
    by (auto simp: lower_char_def code_char_of)
  then show ?thesis using True by (auto simp: is_upper_AZ_def is_sep_def code_def)
next
  case False
  then have "lower_char c = c" unfolding lower_char_def by (simp only: if_False)
  then show ?thesis using False by (auto simp: is_upper_AZ_def)
qed

lemma tokenize_tokens:
  assumes "w \<in> set (tokenize text)"
  shows "w \<noteq> [] \<and> (\<forall>c\<in>set w. \<not> is_space c \<and> c \<noteq> CHR ''_'' \<and> c \<noteq> CHR ''-'' \<and> \<not> is_upper_AZ c)"
proof -
  from assms obtain v where v: "v \<in> set (ws_words (mark_boundaries text))" and w: "w = map lower_char v"
    by (auto simp: tokenize_refines tokenize_spec_def toLowerCase_def)
  from ws_words_chars [OF v]
  have ne: "v \<noteq> []" and sub: "set v \<subseteq> set (mark_boundaries text)" and sp: "\<forall>c\<in>set v. \<not> is_space c"
    by auto
  have "\<And>d. d \<in> set v \<Longrightarrow> \<not> is_space (lower_char d) \<and> \<not> is_sep (lower_char d) \<and> \<not> is_upper_AZ (lower_char d)"
    using sub sp mark_boundaries_no_sep lower_char_props is_space_lower_char by blast
  then show ?thesis using ne w by (auto simp: is_sep_def)
qed

subsection \<open>Classification\<close>

lemma startsWith_prefix: "startsWith s k = prefix k s"
proof
  assume "startsWith s k"
  then have "s = k @ drop (length k) s"
    using append_take_drop_id [of "length k" s] by (simp add: startsWith_def)
  then show "prefix k s" by (metis prefixI)
next
  assume "prefix k s"
  then show "startsWith s k" by (auto simp: startsWith_def prefix_def)
qed

lemma endsWith_suffix: "endsWith s k = suffix k s"
proof
  assume "endsWith s k"
  then have "s = take (length s - length k) s @ k"
    using append_take_drop_id [of "length s - length k" s] by (simp add: endsWith_def)
  then show "suffix k s" by (metis suffixI)
next
  assume "suffix k s"
  then show "endsWith s k" by (auto simp: endsWith_def suffix_def)
qed

lemma matchesKeywords_iff:
  "matchesKeywords tokens keywords =
     (\<exists>t\<in>set tokens. \<exists>k\<in>set keywords. t = k \<or> prefix k t \<or> suffix k t)"
  by (simp add: matchesKeywords_def list_ex_iff startsWith_prefix endsWith_suffix)

lemma tokenize_empty: "tokenize [] = []"
  by (simp add: tokenize_def toLowerCase_def sep_replace_def)

text \<open>
  Claim C1.  \<open>inferPermission\<close> tokenizes the name and the description (when there is
  one); a token matches a keyword table when it equals, starts with or ends with one of the
  table's stems; the tables are tried in the order DELETE, EXECUTE, WRITE, OUTPUT, READ and
  the first table that some token matches gives the permission, UNKNOWN when none does.
  The name \<open>update_and_delete\<close> matches the WRITE table and the DELETE table, and is
  classified DELETE.
\<close>

theorem inferPermission_priority:
  "inferPermission name description =
     (let toks = tokenize name @ (case description of None \<Rightarrow> [] | Some d \<Rightarrow> tokenize d);
          hit = (\<lambda>table. \<exists>t\<in>set toks. \<exists>k\<in>set table. t = k \<or> prefix k t \<or> suffix k t)
      in if hit DELETE_KEYWORDS then DELETE
         else if hit EXECUTE_KEYWORDS then EXECUTE
         else if hit WRITE_KEYWORDS then WRITE
         else if hit OUTPUT_KEYWORDS then OUTPUT
         else if hit READ_KEYWORDS then READ
         else UNKNOWN)
   \<and> matchesKeywords (tokenize ''update_and_delete'') WRITE_KEYWORDS
   \<and> matchesKeywords (tokenize ''update_and_delete'') DELETE_KEYWORDS
   \<and> inferPermission ''update_and_delete'' None = DELETE"
proof -
  have toks: "(case description of None \<Rightarrow> [] | Some d \<Rightarrow> if d = [] then [] else tokenize d)
      = (case description of None \<Rightarrow> [] | Some d \<Rightarrow> tokenize d)"
    by (simp add: tokenize_empty split: option.splits)
  have general: "inferPermission name description =
     (let toks = tokenize name @ (case description of None \<Rightarrow> [] | Some d \<Rightarrow> tokenize d);
          hit = (\<lambda>table. \<exists>t\<in>set toks. \<exists>k\<in>set table. t = k \<or> prefix k t \<or> suffix k t)
      in if hit DELETE_KEYWORDS then DELETE
         else if hit EXECUTE_KEYWORDS then EXECUTE
         else if hit WRITE_KEYWORDS then WRITE
         else if hit OUTPUT_KEYWORDS then OUTPUT
         else if hit READ_KEYWORDS then READ
         else UNKNOWN)"
    unfolding inferPermission_def Let_def toks matchesKeywords_iff by (rule refl)
  have w: "matchesKeywords (tokenize ''update_and_delete'') WRITE_KEYWORDS" by code_simp
  have d: "matchesKeywords (tokenize ''update_and_delete'') DELETE_KEYWORDS" by code_simp
  have e: "inferPermission ''update_and_delete'' None = DELETE" by code_simp
  show ?thesis using general w d e by blast
qed

text \<open>
  Claim C9.  \<open>tokenize\<close> computes the words of the text after a boundary has been put at
  every lower-to-upper transition and at every underscore and hyphen, in lower case: every
  token is non-empty and has no white space, underscore, hyphen or letter A-Z in it; and
  \<open>getUserData\<close> gives get, user, data, and \<open>LIST_FILES\<close> gives list, files.
\<close>

theorem tokenize_splits_words:
  "tokenize text = map toLowerCase (ws_words (mark_boundaries text))
   \<and> (\<forall>w\<in>set (tokenize text). w \<noteq> [] \<and>
        (\<forall>c\<in>set w. \<not> is_space c \<and> c \<noteq> CHR ''_'' \<and> c \<noteq> CHR ''-'' \<and> \<not> is_upper_AZ c))
   \<and> tokenize ''getUserData'' = [''get'', ''user'', ''data'']
   \<and> tokenize ''LIST_FILES'' = [''list'', ''files'']"
proof -
  have a: "tokenize text = map toLowerCase (ws_words (mark_boundaries text))"
    using tokenize_refines [of "text"] by (simp add: tokenize_spec_def)
  have b: "tokenize ''getUserData'' = [''get'', ''user'', ''data'']" by code_simp
  have c: "tokenize ''LIST_FILES'' = [''list'', ''files'']" by code_simp
  have d: "\<forall>w\<in>set (tokenize text). w \<noteq> [] \<and>
        (\<forall>c\<in>set w. \<not> is_space c \<and> c \<noteq> CHR ''_'' \<and> c \<noteq> CHR ''-'' \<and> \<not> is_upper_AZ c)"
    using tokenize_tokens [of _ "text"] by blast
  show ?thesis by (intro conjI) (rule a, rule d, rule b, rule c)
qed

theorem tokenize_splits_words_witness:
  "tokenize ''fetch-allRows_v2'' = [''fetch'', ''all'', ''rows'', ''v2'']
   \<and> map toLowerCase (ws_words (mark_boundaries ''fetch-allRows_v2'')) = [''fetch'', ''all'', ''rows'', ''v2'']
   \<and> [''fetch'', ''all'', ''rows'', ''v2''] \<noteq> []"
proof -
  have t: "tokenize ''fetch-allRows_v2'' = [''fetch'', ''all'', ''rows'', ''v2'']" by code_simp
  have r: "tokenize ''fetch-allRows_v2'' = map toLowerCase (ws_words (mark_boundaries ''fetch-allRows_v2''))"
    by (rule conjunct1 [OF tokenize_splits_words])
  have m: "map toLowerCase (ws_words (mark_boundaries ''fetch-allRows_v2'')) = [''fetch'', ''all'', ''rows'', ''v2'']"
    using r t by (rule trans [OF sym])
  show ?thesis by (intro conjI) (rule t, rule m, simp)
qed

section \<open>Data model\<close>

text \<open>
  Strings decoded from JSON may hold any UTF-16 code unit (through \<open>\uXXXX\<close>), so they are
  lists of code unit numbers; \<open>units\<close> embeds the strings of the model into them.
\<close>

type_synonym ustring = "nat list"

definition units :: "string \<Rightarrow> ustring" where
  "units s = map code s"

text \<open>
  A JSON value as \<open>JSON.parse\<close> returns it.  A number is kept as the decimal \<open>m * 10 ^ e\<close>
  its literal denotes; the members of an object are in insertion order, every key once.
\<close>

datatype json =
    JNull
  | JBool bool
  | JNumber int int
  | JString ustring
  | JArray "json list"
  | JObject "(ustring \<times> json) list"

datatype Framework =
  FW_mcp | FW_mcp_config | FW_langraph | FW_crewai | FW_autogen | FW_fastmcp | FW_custom | FW_unknown

fun framework_name :: "Framework \<Rightarrow> string" where
  "framework_name FW_mcp = ''mcp''"
| "framework_name FW_mcp_config = ''mcp-config''"
| "framework_name FW_langraph = ''langraph''"
| "framework_name FW_crewai = ''crewai''"
| "framework_name FW_autogen = ''autogen''"
| "framework_name FW_fastmcp = ''fastmcp''"
| "framework_name FW_custom = ''custom''"
| "framework_name FW_unknown = ''unknown''"

fun risk_name :: "RiskLevel \<Rightarrow> string" where
  "risk_name LOW = ''LOW''"
| "risk_name MEDIUM = ''MEDIUM''"
| "risk_name HIGH = ''HIGH''"

record ParameterSchema =
  param_type :: string
  param_description :: "string option"
  param_required :: "bool option"
  param_default :: "json option"

record Tool =
  tool_name :: string
  tool_framework :: Framework
  tool_source :: string
  tool_line :: nat
  tool_permission :: Permission
  tool_risk :: RiskLevel
  tool_description :: "string option"
  tool_parameters :: "(string \<times> ParameterSchema) list option"
  tool_version :: "string option"

record Agent =
  agent_name :: string
  agent_framework :: Framework
  agent_source :: string
  agent_line :: nat
  agent_tools :: "string list"
  agent_description :: "string option"
  agent_config :: "json option"

text \<open>
  The fields of the interfaces, with the name of the record in front where two interfaces
  share a field name.  The configuration detector copies \<open>name\<close> (an object key) and
  \<open>command\<close>, \<open>args\<close> and \<open>env\<close> (whatever values the file holds) out of the parsed JSON
  unchecked, so a server holds them as they are parsed.
\<close>

record McpServer =
  server_name :: ustring
  server_command :: json
  server_args :: "json option"
  server_env :: "json option"
  server_source :: string
  server_tools :: "string list option"

record ScanSummary =
  total_tools :: nat
  total_agents :: nat
  total_mcp_servers :: nat
  files_scanned :: nat
  by_framework :: "(Framework \<times> nat) list"
  by_permission :: "(Permission \<times> nat) list"
  by_risk :: "(RiskLevel \<times> nat) list"

record Manifest =
  manifest_version :: string
  scanned_at :: string
  scanned_path :: string
  scan_duration_ms :: nat
  summary :: ScanSummary
  manifest_tools :: "Tool list"
  manifest_agents :: "Agent list"
  mcp_servers :: "McpServer list"

record DetectorResult =
  tools :: "Tool list"
  agents :: "Agent list"
  mcpServers :: "McpServer list"

record ScanOptions =
  opt_output :: "string option"
  opt_framework :: "string option"
  opt_risk :: "string option"
  opt_json :: "bool option"
  opt_color :: "bool option"

record FileInfo =
  path :: string
  relativePath :: string
  extension :: string
  content :: string

section \<open>Manifest assembly\<close>

definition MANIFEST_VERSION :: string where
  "MANIFEST_VERSION = ''1.0.0''"

text \<open>
  The three counting loops of \<open>createSummary\<close> write into an object.  The object is an
  association list in insertion order; \<open>bump\<close> is \<open>m[k] = (m[k] || 0) + 1\<close>, and \<open>m[k]++\<close> on a
  key that is there.
\<close>

fun bump :: "'k \<Rightarrow> ('k \<times> nat) list \<Rightarrow> ('k \<times> nat) list" where
  "bump k [] = [(k, 1)]"
| "bump k ((k', n) # m) = (if k' = k then (k', n + 1) # m else (k', n) # bump k m)"

definition createSummary :: "DetectorResult \<Rightarrow> nat \<Rightarrow> ScanSummary" where
  "createSummary result filesScanned =
     (let byFramework = fold (\<lambda>tool m. bump (tool_framework tool) m) (tools result) [];
          byPermission = fold (\<lambda>tool m. bump (tool_permission tool) m) (tools result)
            [(READ, 0), (WRITE, 0), (DELETE, 0), (EXECUTE, 0), (OUTPUT, 0), (UNKNOWN, 0)];
          byRisk = fold (\<lambda>tool m. bump (tool_risk tool) m) (tools result)
            [(LOW, 0), (MEDIUM, 0), (HIGH, 0)]
      in \<lparr> total_tools = length (tools result),
           total_agents = length (agents result),
           total_mcp_servers = length (mcpServers result),
           files_scanned = filesScanned,
           by_framework = byFramework,
           by_permission = byPermission,
           by_risk = byRisk \<rparr>)"

text \<open>
  \<open>Array.prototype.sort\<close> with a comparison function.  The sort is stable, so for a
  comparison function that is consistent (a total preorder) its result is the one stable
  sorted arrangement of the array, which insertion from the right computes.
\<close>

fun insert_by :: "('a \<Rightarrow> 'a \<Rightarrow> int) \<Rightarrow> 'a \<Rightarrow> 'a list \<Rightarrow> 'a list" where
  "insert_by cmp x [] = [x]"
| "insert_by cmp x (y # ys) = (if cmp x y \<le> 0 then x # y # ys else y # insert_by cmp x ys)"

definition sort_by :: "('a \<Rightarrow> 'a \<Rightarrow> int) \<Rightarrow> 'a list \<Rightarrow> 'a list" where
  "sort_by cmp xs = foldr (insert_by cmp) xs []"

fun riskOrder :: "RiskLevel \<Rightarrow> int" where
  "riskOrder HIGH = 0"
| "riskOrder MEDIUM = 1"
| "riskOrder LOW = 2"

text \<open>
  \<open>String.prototype.localeCompare\<close> depends on the collation of the host's locale; it is a
  parameter of the model.
\<close>

definition tool_compare :: "(ustring \<Rightarrow> ustring \<Rightarrow> int) \<Rightarrow> Tool \<Rightarrow> Tool \<Rightarrow> int" where
  "tool_compare localeCompare a b =
     (let riskDiff = riskOrder (tool_risk a) - riskOrder (tool_risk b)
      in if riskDiff \<noteq> 0 then riskDiff
         else localeCompare (units (tool_name a)) (units (tool_name b)))"

text \<open>\<open>now\<close> is the value of \<open>new Date().toISOString()\<close> at the call.\<close>

definition createManifest ::
  "(ustring \<Rightarrow> ustring \<Rightarrow> int) \<Rightarrow> string \<Rightarrow> DetectorResult \<Rightarrow> string \<Rightarrow> nat \<Rightarrow> nat \<Rightarrow> Manifest" where
  "createManifest localeCompare now result scannedPath filesScanned durationMs =
     (let sortedTools = sort_by (tool_compare localeCompare) (tools result);
          sortedAgents = sort_by (\<lambda>a b. localeCompare (units (agent_name a)) (units (agent_name b)))
                           (agents result);
          sortedServers = sort_by (\<lambda>a b. localeCompare (server_name a) (server_name b))
                            (mcpServers result)
      in \<lparr> manifest_version = MANIFEST_VERSION,
           scanned_at = now,
           scanned_path = scannedPath,
           scan_duration_ms = durationMs,
           summary = createSummary result filesScanned,
           manifest_tools = sortedTools,
           manifest_agents = sortedAgents,
           mcp_servers = sortedServers \<rparr>)"

definition filterByFramework :: "Tool list \<Rightarrow> string \<Rightarrow> Tool list" where
  "filterByFramework ts fw = filter (\<lambda>t. framework_name (tool_framework t) = fw) ts"

text \<open>
  The risk level comes from the command line, upper-cased and cast unchecked, so it is
  compared as the string of code units it is.
\<close>

definition filterByRisk :: "Tool list \<Rightarrow> ustring \<Rightarrow> Tool list" where
  "filterByRisk ts risk = filter (\<lambda>t. units (risk_name (tool_risk t)) = risk) ts"

text \<open>
  The three deduplication loops: \<open>seen\<close> is the set of keys met so far, \<open>unique\<close> the
  array of the items kept.
\<close>

definition dedupe_step :: "('a \<Rightarrow> 'k) \<Rightarrow> 'a \<Rightarrow> 'k set \<times> 'a list \<Rightarrow> 'k set \<times> 'a list" where
  "dedupe_step key item st =
     (case st of (seen, unique) \<Rightarrow>
        if key item \<notin> seen then (insert (key item) seen, unique @ [item]) else (seen, unique))"

definition deduplicateTools :: "Tool list \<Rightarrow> Tool list" where
  "deduplicateTools ts =
     snd (fold (dedupe_step (\<lambda>tool. tool_name tool @ '':'' @ tool_source tool)) ts ({}, []))"

definition deduplicateAgents :: "Agent list \<Rightarrow> Agent list" where
  "deduplicateAgents ags =
     snd (fold (dedupe_step (\<lambda>agent. agent_name agent @ '':'' @ agent_source agent)) ags ({}, []))"

definition deduplicateMcpServers :: "McpServer list \<Rightarrow> McpServer list" where
  "deduplicateMcpServers servers =
     snd (fold (dedupe_step server_name) servers ({}, []))"

text \<open>
  \<open>String.prototype.toUpperCase\<close>: a-z and the Latin-1 small letters move down by 32; the
  sharp s becomes \<open>SS\<close>, and the micro sign and the y with diaeresis leave the Latin-1 range.
\<close>

definition upper_char :: "char \<Rightarrow> ustring" where
  "upper_char c =
     (if (97 \<le> code c \<and> code c \<le> 122) \<or> (224 \<le> code c \<and> code c \<le> 254 \<and> code c \<noteq> 247)
      then [code c - 32]
      else if code c = 223 then [83, 83]
      else if code c = 181 then [924]
      else if code c = 255 then [376]
      else [code c])"

definition toUpperCase :: "string \<Rightarrow> ustring" where
  "toUpperCase s = concat (map upper_char s)"

text \<open>
  The part of \<open>scanCommand\<close> between the router and the output: deduplicate, apply the
  filters that were asked for (an empty option is falsy), and build the manifest.
\<close>

definition scanCommand_assemble ::
  "(ustring \<Rightarrow> ustring \<Rightarrow> int) \<Rightarrow> string \<Rightarrow> DetectorResult \<Rightarrow> ScanOptions \<Rightarrow> string \<Rightarrow> nat \<Rightarrow> nat
     \<Rightarrow> Manifest" where
  "scanCommand_assemble localeCompare now result options absolutePath nfiles duration =
     (let r1 = result \<lparr> tools := deduplicateTools (tools result),
                         agents := deduplicateAgents (agents result),
                         mcpServers := deduplicateMcpServers (mcpServers result) \<rparr>;
          r2 = (case opt_framework options of
                  None \<Rightarrow> r1
                | Some fw \<Rightarrow> if fw = [] then r1 else r1 \<lparr> tools := filterByFramework (tools r1) fw \<rparr>);
          r3 = (case opt_risk options of
                  None \<Rightarrow> r2
                | Some risk \<Rightarrow> if risk = [] then r2
                             else r2 \<lparr> tools := filterByRisk (tools r2) (toUpperCase risk) \<rparr>)
      in createManifest localeCompare now r3 absolutePath nfiles duration)"

section \<open>Properties of the assembly\<close>

subsection \<open>Sorting\<close>

lemma mset_insert_by: "mset (insert_by cmp x ys) = add_mset x (mset ys)"
  by (induction ys) simp_all

lemma mset_sort_by: "mset (sort_by cmp xs) = mset xs"
  by (induction xs) (simp_all add: sort_by_def mset_insert_by)

lemma length_sort_by: "length (sort_by cmp xs) = length xs"
  using mset_sort_by [of cmp xs] by (metis size_mset)

lemma set_sort_by: "set (sort_by cmp xs) = set xs"
  using mset_sort_by [of cmp xs] by (metis set_mset_mset)

lemma filter_length_sort_by:
  "length (filter P (sort_by cmp xs)) = length (filter P xs)"
proof -
  have "mset (filter P (sort_by cmp xs)) = mset (filter P xs)"
    by (simp only: mset_filter mset_sort_by)
  then show ?thesis by (metis size_mset)
qed

text \<open>A comparison function is consistent when it is the sign of a total preorder.\<close>

definition consistent_compare :: "('a \<Rightarrow> 'a \<Rightarrow> int) \<Rightarrow> bool" where
  "consistent_compare cmp =
     ((\<forall>a. cmp a a = 0) \<and>
      (\<forall>a b. (cmp a b < 0) = (0 < cmp b a)) \<and>
      (\<forall>a b c. cmp a b \<le> 0 \<and> cmp b c \<le> 0 \<longrightarrow> cmp a c \<le> 0))"

lemma consistent_total: "consistent_compare cmp \<Longrightarrow> \<not> cmp x y \<le> 0 \<Longrightarrow> cmp y x \<le> 0"
  unfolding consistent_compare_def by (metis less_le_not_le linorder_not_le)

lemma consistent_trans: "consistent_compare cmp \<Longrightarrow> cmp x y \<le> 0 \<Longrightarrow> cmp y z \<le> 0 \<Longrightarrow> cmp x z \<le> 0"
  unfolding consistent_compare_def by blast

lemma sorted_insert_by:
  assumes "consistent_compare cmp" "sorted_wrt (\<lambda>a b. cmp a b \<le> 0) ys"
  shows "sorted_wrt (\<lambda>a b. cmp a b \<le> 0) (insert_by cmp x ys)"
  using assms(2)
proof (induction ys)
  case Nil
  show ?case by simp
next
  case (Cons y ys)
  show ?case
  proof (cases "cmp x y \<le> 0")
    case True
    then have "\<forall>z\<in>set ys. cmp x z \<le> 0"
      using Cons.prems consistent_trans [OF assms(1)] by auto
    then show ?thesis using True Cons.prems by simp
  next
    case False
    then have yx: "cmp y x \<le> 0" by (rule consistent_total [OF assms(1)])
    have "set (insert_by cmp x ys) = insert x (set ys)"
      using mset_insert_by [of cmp x ys] by (metis set_mset_mset set_mset_add_mset_insert)
    then show ?thesis using False yx Cons by simp
  qed
qed

lemma sorted_sort_by:
  "consistent_compare cmp \<Longrightarrow> sorted_wrt (\<lambda>a b. cmp a b \<le> 0) (sort_by cmp xs)"
proof (induction xs)
  case Nil
  show ?case by (simp add: sort_by_def)
next
  case (Cons x xs)
  then have "sorted_wrt (\<lambda>a b. cmp a b \<le> 0) (insert_by cmp x (sort_by cmp xs))"
    by (simp add: sorted_insert_by)
  then show ?case by (simp add: sort_by_def)
qed

lemma sorted_wrt_unique:
  assumes "sorted_wrt R xs" "sorted_wrt R ys" "mset xs = mset ys"
    and "\<And>a b. a \<in> set xs \<Longrightarrow> b \<in> set xs \<Longrightarrow> R a b \<Longrightarrow> R b a \<Longrightarrow> a = b"
  shows "xs = ys"
  using assms
proof (induction xs arbitrary: ys)
  case Nil
  then show ?case by simp
next
  case (Cons x xs)
  from Cons.prems(3) obtain y ys' where ys: "ys = y # ys'"
    by (cases ys) auto
  have sets: "set (x # xs) = set (y # ys')"
    using Cons.prems(3) ys by (metis set_mset_mset)
  have "x = y"
  proof (rule ccontr)
    assume ne: "x \<noteq> y"
    then have mem: "x \<in> set ys'" "y \<in> set xs" using sets by auto
    then have "R y x" and "R x y" using Cons.prems(1,2) ys by auto
    then have "x = y" using Cons.prems(4) [of x y] mem by simp
    then show False using ne by simp
  qed
  moreover have "xs = ys'"
  proof (rule Cons.IH)
    show "sorted_wrt R xs" using Cons.prems(1) by simp
    show "sorted_wrt R ys'" using Cons.prems(2) ys by simp
    show "mset xs = mset ys'" using Cons.prems(3) ys \<open>x = y\<close> by simp
    show "\<And>a b. a \<in> set xs \<Longrightarrow> b \<in> set xs \<Longrightarrow> R a b \<Longrightarrow> R b a \<Longrightarrow> a = b"
      using Cons.prems(4) by simp
  qed
  ultimately show ?case using ys by simp
qed

lemma consistent_tool_compare:
  assumes "consistent_compare lc"
  shows "consistent_compare (tool_compare lc)"
proof -
  have r: "\<And>a. lc a a = 0" and s: "\<And>a b. (lc a b < 0) = (0 < lc b a)"
    and t: "\<And>a b c. lc a b \<le> 0 \<Longrightarrow> lc b c \<le> 0 \<Longrightarrow> lc a c \<le> 0"
    using assms unfolding consistent_compare_def by blast+
  show ?thesis
    unfolding consistent_compare_def
  proof (intro conjI allI impI)
    fix a show "tool_compare lc a a = 0" by (simp add: tool_compare_def r)
  next
    fix a b show "(tool_compare lc a b < 0) = (0 < tool_compare lc b a)"
      using s [of "units (tool_name a)" "units (tool_name b)"]
      by (auto simp: tool_compare_def Let_def)
  next
    fix a b c
    assume "tool_compare lc a b \<le> 0 \<and> tool_compare lc b c \<le> 0"
    then show "tool_compare lc a c \<le> 0"
      using t [of "units (tool_name a)" "units (tool_name b)" "units (tool_name c)"]
      by (auto simp: tool_compare_def Let_def split: if_splits)
  qed
qed

lemma consistent_on_key:
  assumes "consistent_compare lc"
  shows "consistent_compare (\<lambda>a b. lc (f a) (f b))"
  using assms unfolding consistent_compare_def by blast

subsection \<open>Counting\<close>

lemma sum_bump: "sum_list (map snd (bump k m)) = Suc (sum_list (map snd m))"
  by (induction m) auto

lemma sum_fold_bump:
  "sum_list (map snd (fold (\<lambda>t m. bump (f t) m) ts m0)) = sum_list (map snd m0) + length ts"
  by (induction ts arbitrary: m0) (simp_all add: sum_bump)

lemma map_of_bump:
  "map_of (bump k m) k' =
     (if k' = k then Some (case map_of m k of None \<Rightarrow> 1 | Some n \<Rightarrow> n + 1) else map_of m k')"
  by (induction m) auto

lemma map_of_fold_bump:
  "map_of (fold (\<lambda>t m. bump (f t) m) ts m0) k =
     (case map_of m0 k of
        None \<Rightarrow> if filter (\<lambda>t. f t = k) ts = [] then None else Some (length (filter (\<lambda>t. f t = k) ts))
      | Some n \<Rightarrow> Some (n + length (filter (\<lambda>t. f t = k) ts)))"
proof (induction ts arbitrary: m0)
  case Nil
  show ?case by (simp split: option.splits)
next
  case (Cons t ts)
  show ?case
    by (simp add: Cons.IH map_of_bump split: option.splits)
qed

lemma createSummary_totals:
  "total_tools (createSummary r n) = length (tools r)"
  "total_agents (createSummary r n) = length (agents r)"
  "total_mcp_servers (createSummary r n) = length (mcpServers r)"
  "sum_list (map snd (by_framework (createSummary r n))) = length (tools r)"
  "sum_list (map snd (by_permission (createSummary r n))) = length (tools r)"
  "sum_list (map snd (by_risk (createSummary r n))) = length (tools r)"
  by (simp_all add: createSummary_def Let_def sum_fold_bump)

lemma createSummary_buckets:
  "map_of (by_framework (createSummary r n)) f =
     (if filter (\<lambda>t. tool_framework t = f) (tools r) = [] then None
      else Some (length (filter (\<lambda>t. tool_framework t = f) (tools r))))"
  "map_of (by_permission (createSummary r n)) p =
     Some (length (filter (\<lambda>t. tool_permission t = p) (tools r)))"
  "map_of (by_risk (createSummary r n)) l =
     Some (length (filter (\<lambda>t. tool_risk t = l) (tools r)))"
proof -
  show "map_of (by_framework (createSummary r n)) f =
     (if filter (\<lambda>t. tool_framework t = f) (tools r) = [] then None
      else Some (length (filter (\<lambda>t. tool_framework t = f) (tools r))))"
    by (simp add: createSummary_def Let_def map_of_fold_bump)
  show "map_of (by_permission (createSummary r n)) p =
     Some (length (filter (\<lambda>t. tool_permission t = p) (tools r)))"
    by (cases p) (simp_all add: createSummary_def Let_def map_of_fold_bump)
  show "map_of (by_risk (createSummary r n)) l =
     Some (length (filter (\<lambda>t. tool_risk t = l) (tools r)))"
    by (cases l) (simp_all add: createSummary_def Let_def map_of_fold_bump)
qed

lemma createManifest_fields:
  "summary (createManifest lc now r p n d) = createSummary r n"
  "manifest_tools (createManifest lc now r p n d) = sort_by (tool_compare lc) (tools r)"
  "manifest_agents (createManifest lc now r p n d) =
     sort_by (\<lambda>a b. lc (units (agent_name a)) (units (agent_name b))) (agents r)"
  "mcp_servers (createManifest lc now r p n d) =
     sort_by (\<lambda>a b. lc (server_name a) (server_name b)) (mcpServers r)"
  by (simp_all add: createManifest_def Let_def)

lemma filter_Nil_length: "(filter P xs = []) = (length (filter P xs) = 0)"
  by simp

lemma createManifest_counts:
  fixes lc now r p n d
  defines "M \<equiv> createManifest lc now r p n d"
  shows "total_tools (summary M) = length (manifest_tools M)
     \<and> total_agents (summary M) = length (manifest_agents M)
     \<and> total_mcp_servers (summary M) = length (mcp_servers M)
     \<and> sum_list (map snd (by_framework (summary M))) = total_tools (summary M)
     \<and> sum_list (map snd (by_permission (summary M))) = total_tools (summary M)
     \<and> sum_list (map snd (by_risk (summary M))) = total_tools (summary M)
     \<and> (\<forall>f. map_of (by_framework (summary M)) f =
            (if length (filter (\<lambda>t. tool_framework t = f) (manifest_tools M)) = 0 then None
             else Some (length (filter (\<lambda>t. tool_framework t = f) (manifest_tools M)))))
     \<and> (\<forall>q. map_of (by_permission (summary M)) q =
            Some (length (filter (\<lambda>t. tool_permission t = q) (manifest_tools M))))
     \<and> (\<forall>l. map_of (by_risk (summary M)) l =
            Some (length (filter (\<lambda>t. tool_risk t = l) (manifest_tools M))))"
  unfolding M_def createManifest_fields
  by (simp only: createSummary_totals createSummary_buckets length_sort_by filter_length_sort_by
        filter_Nil_length simp_thms)

subsection \<open>Deduplication\<close>

text \<open>The items a deduplication loop keeps, as a recursion over the input.\<close>

fun firsts :: "('a \<Rightarrow> 'k) \<Rightarrow> 'k set \<Rightarrow> 'a list \<Rightarrow> 'a list" where
  "firsts key seen [] = []"
| "firsts key seen (x # xs) =
     (if key x \<in> seen then firsts key seen xs else x # firsts key (insert (key x) seen) xs)"

lemma fold_dedupe_step:
  "fold (dedupe_step key) xs (seen, acc) = (seen \<union> key ` set xs, acc @ firsts key seen xs)"
  by (induction xs arbitrary: seen acc) (auto simp: dedupe_step_def)

lemma firsts_keys:
  "key ` set (firsts key seen xs) \<inter> seen = {} \<and> distinct (map key (firsts key seen xs))"
proof (induction xs arbitrary: seen)
  case Nil
  show ?case by simp
next
  case (Cons x xs)
  show ?case
  proof (cases "key x \<in> seen")
    case True
    then show ?thesis using Cons.IH [of seen] by simp
  next
    case False
    then show ?thesis using Cons.IH [of "insert (key x) seen"] by auto
  qed
qed

lemma firsts_fixed:
  "distinct (map key ys) \<Longrightarrow> key ` set ys \<inter> seen = {} \<Longrightarrow> firsts key seen ys = ys"
  by (induction ys arbitrary: seen) auto

lemma firsts_idem: "firsts key seen (firsts key seen xs) = firsts key seen xs"
  using firsts_keys [of key seen xs] by (simp add: firsts_fixed)

lemma dedupe_idem:
  "snd (fold (dedupe_step key) (snd (fold (dedupe_step key) xs ({}, []))) ({}, []))
     = snd (fold (dedupe_step key) xs ({}, []))"
  by (simp add: fold_dedupe_step firsts_idem)

lemma dedupe_distinct: "distinct (map key (snd (fold (dedupe_step key) xs ({}, []))))"
  using firsts_keys [of key "{}" xs] by (simp add: fold_dedupe_step)

text \<open>
  Claim C5.  Each of the three deduplication functions gives, applied to its own result,
  that result again; the keys of what it keeps (name and source, or the name for servers)
  are pairwise different.
\<close>

theorem deduplicate_idempotent:
  "deduplicateTools (deduplicateTools ts) = deduplicateTools ts
   \<and> deduplicateAgents (deduplicateAgents ags) = deduplicateAgents ags
   \<and> deduplicateMcpServers (deduplicateMcpServers servers) = deduplicateMcpServers servers
   \<and> distinct (map (\<lambda>tool. tool_name tool @ '':'' @ tool_source tool) (deduplicateTools ts))
   \<and> distinct (map (\<lambda>agent. agent_name agent @ '':'' @ agent_source agent) (deduplicateAgents ags))
   \<and> distinct (map server_name (deduplicateMcpServers servers))"
  unfolding deduplicateTools_def deduplicateAgents_def deduplicateMcpServers_def
  by (intro conjI dedupe_idem dedupe_distinct)

text \<open>
  What the summary of a manifest has to say about its collections: the totals are their
  lengths, every bucket table adds up to the number of tools, and every bucket holds the
  number of tools of the manifest with that key (a framework with no tool has no bucket).
\<close>

definition summary_matches :: "Manifest \<Rightarrow> bool" where
  "summary_matches M =
     (total_tools (summary M) = length (manifest_tools M)
      \<and> total_agents (summary M) = length (manifest_agents M)
      \<and> total_mcp_servers (summary M) = length (mcp_servers M)
      \<and> sum_list (map snd (by_framework (summary M))) = total_tools (summary M)
      \<and> sum_list (map snd (by_permission (summary M))) = total_tools (summary M)
      \<and> sum_list (map snd (by_risk (summary M))) = total_tools (summary M)
      \<and> (\<forall>f. map_of (by_framework (summary M)) f =
             (if length (filter (\<lambda>t. tool_framework t = f) (manifest_tools M)) = 0 then None
              else Some (length (filter (\<lambda>t. tool_framework t = f) (manifest_tools M)))))
      \<and> (\<forall>q. map_of (by_permission (summary M)) q =
             Some (length (filter (\<lambda>t. tool_permission t = q) (manifest_tools M))))
      \<and> (\<forall>l. map_of (by_risk (summary M)) l =
             Some (length (filter (\<lambda>t. tool_risk t = l) (manifest_tools M)))))"

text \<open>
  Claim C4.  In every manifest that \<open>createManifest\<close> builds, and so in every manifest the
  scan assembles after deduplication and filtering, the summary counts are the sizes of the
  final collections.
\<close>

theorem summary_counts_match:
  "summary_matches (createManifest localeCompare now result scannedPath filesScanned durationMs)
   \<and> summary_matches (scanCommand_assemble localeCompare now result options absolutePath nfiles duration)"
proof -
  have a: "summary_matches (createManifest lc t r p n d)" for lc t r p n d
    unfolding summary_matches_def by (rule createManifest_counts)
  show ?thesis
    unfolding scanCommand_assemble_def Let_def by (intro conjI a)
qed

text \<open>
  One consistent comparison function, to have an instance of the parameter: strings
  compared code unit by code unit.
\<close>

fun codeunit_compare :: "ustring \<Rightarrow> ustring \<Rightarrow> int" where
  "codeunit_compare [] [] = 0"
| "codeunit_compare [] (y # ys) = - 1"
| "codeunit_compare (x # xs) [] = 1"
| "codeunit_compare (x # xs) (y # ys) =
     (if x < y then - 1 else if y < x then 1 else codeunit_compare xs ys)"

lemma codeunit_compare_refl: "codeunit_compare a a = 0"
  by (induction a) simp_all

lemma codeunit_compare_sym: "(codeunit_compare a b < 0) = (0 < codeunit_compare b a)"
  by (induction a b rule: codeunit_compare.induct) simp_all

lemma codeunit_compare_trans:
  "codeunit_compare a b \<le> 0 \<Longrightarrow> codeunit_compare b c \<le> 0 \<Longrightarrow> codeunit_compare a c \<le> 0"
proof (induction a b arbitrary: c rule: codeunit_compare.induct)
  case 1
  then show ?case by simp
next
  case (2 y ys)
  then show ?case by (cases c) simp_all
next
  case (3 x xs)
  then show ?case by simp
next
  case (4 x xs y ys)
  show ?case
  proof (cases c)
    case Nil
    then show ?thesis using 4(3) by simp
  next
    case (Cons z zs)
    have xy: "x \<le> y" using 4(2) by (simp split: if_splits)
    have yz: "y \<le> z" using 4(3) Cons by (simp split: if_splits)
    show ?thesis
    proof (cases "x < z")
      case True
      then show ?thesis using Cons by simp
    next
      case False
      then have e: "x = y" "y = z" using xy yz by simp_all
      then have "codeunit_compare xs ys \<le> 0" "codeunit_compare ys zs \<le> 0"
        using 4(2,3) Cons by simp_all
      then have "codeunit_compare xs zs \<le> 0" using 4(1) e by simp
      then show ?thesis using e Cons by simp
    qed
  qed
qed

lemma consistent_codeunit_compare: "consistent_compare codeunit_compare"
  unfolding consistent_compare_def
proof (intro conjI allI impI)
  fix a show "codeunit_compare a a = 0" by (rule codeunit_compare_refl)
next
  fix a b show "(codeunit_compare a b < 0) = (0 < codeunit_compare b a)"
    by (rule codeunit_compare_sym)
next
  fix a b c assume "codeunit_compare a b \<le> 0 \<and> codeunit_compare b c \<le> 0"
  then show "codeunit_compare a c \<le> 0" using codeunit_compare_trans by blast
qed

lemma tool_compare_le:
  "(tool_compare lc a b \<le> 0) =
     (riskOrder (tool_risk a) < riskOrder (tool_risk b)
      \<or> (tool_risk a = tool_risk b \<and> lc (units (tool_name a)) (units (tool_name b)) \<le> 0))"
  by (cases "tool_risk a"; cases "tool_risk b") (simp_all add: tool_compare_def)

lemma tool_compare_antisym:
  assumes "consistent_compare lc" "tool_compare lc a b \<le> 0" "tool_compare lc b a \<le> 0"
  shows "tool_risk a = tool_risk b \<and> lc (units (tool_name a)) (units (tool_name b)) = 0"
proof -
  have s: "(lc (units (tool_name a)) (units (tool_name b)) < 0) = (0 < lc (units (tool_name b)) (units (tool_name a)))"
    using assms(1) unfolding consistent_compare_def by blast
  show ?thesis using assms(2,3) s unfolding tool_compare_le
    by (cases "tool_risk a"; cases "tool_risk b") auto
qed

lemma consistent_equiv_le:
  assumes "consistent_compare cmp" "cmp a x = 0" "cmp y x = 0"
  shows "cmp a y \<le> 0"
proof -
  have "\<not> cmp y x < 0" using assms(3) by simp
  then have "\<not> 0 < cmp x y" using assms(1) unfolding consistent_compare_def by blast
  then have "cmp x y \<le> 0" by simp
  moreover have "cmp a x \<le> 0" using assms(2) by simp
  ultimately show ?thesis using consistent_trans [OF assms(1)] by blast
qed

lemma filter_insert_by:
  assumes "consistent_compare cmp"
  shows "filter (\<lambda>y. cmp y x = 0) (insert_by cmp a ys)
     = (if cmp a x = 0 then a # filter (\<lambda>y. cmp y x = 0) ys else filter (\<lambda>y. cmp y x = 0) ys)"
proof (induction ys)
  case Nil
  show ?case by simp
next
  case (Cons y ys)
  show ?case
  proof (cases "cmp a y \<le> 0")
    case True
    then show ?thesis by simp
  next
    case False
    have "\<not> (cmp a x = 0 \<and> cmp y x = 0)"
      using False consistent_equiv_le [OF assms, of a x y] by blast
    then show ?thesis using False Cons.IH by auto
  qed
qed

lemma filter_sort_by:
  assumes "consistent_compare cmp"
  shows "filter (\<lambda>y. cmp y x = 0) (sort_by cmp xs) = filter (\<lambda>y. cmp y x = 0) xs"
proof (induction xs)
  case Nil
  show ?case by (simp add: sort_by_def)
next
  case (Cons a xs)
  have "sort_by cmp (a # xs) = insert_by cmp a (sort_by cmp xs)" by (simp add: sort_by_def)
  then show ?case using Cons.IH by (simp add: filter_insert_by [OF assms])
qed

lemma tool_compare_eq0:
  "(tool_compare lc a b = 0)
     = (tool_risk a = tool_risk b \<and> lc (units (tool_name a)) (units (tool_name b)) = 0)"
  by (cases "tool_risk a"; cases "tool_risk b") (simp_all add: tool_compare_def)

lemma tools_stable:
  fixes x :: Tool
  assumes "consistent_compare lc"
  shows "filter (\<lambda>t. tool_risk t = tool_risk x \<and> lc (units (tool_name t)) (units (tool_name x)) = 0)
           (sort_by (tool_compare lc) ts)
       = filter (\<lambda>t. tool_risk t = tool_risk x \<and> lc (units (tool_name t)) (units (tool_name x)) = 0) ts"
  using filter_sort_by [OF consistent_tool_compare [OF assms], of x ts]
  by (simp only: tool_compare_eq0)

text \<open>
  Claim C6, as amended.  With a consistent \<open>localeCompare\<close>, the tools of a manifest are
  sorted by risk, HIGH before MEDIUM before LOW, and within one risk by name ascending;
  agents and servers are sorted by name with the same comparison; each list is a
  rearrangement of its input.  Tools that are equal in risk and in name stay in the order
  of the input; where risk and name tell any two different tools apart, the sorted list
  does not depend on the order of the input.
\<close>

theorem createManifest_sorted:
  assumes "consistent_compare localeCompare"
  shows "(let M = createManifest localeCompare now result scannedPath filesScanned durationMs in
      riskOrder HIGH < riskOrder MEDIUM \<and> riskOrder MEDIUM < riskOrder LOW
    \<and> sorted_wrt (\<lambda>a b. riskOrder (tool_risk a) < riskOrder (tool_risk b)
          \<or> (tool_risk a = tool_risk b
              \<and> localeCompare (units (tool_name a)) (units (tool_name b)) \<le> 0)) (manifest_tools M)
    \<and> mset (manifest_tools M) = mset (tools result)
    \<and> sorted_wrt (\<lambda>a b. localeCompare (units (agent_name a)) (units (agent_name b)) \<le> 0)
          (manifest_agents M)
    \<and> mset (manifest_agents M) = mset (agents result)
    \<and> sorted_wrt (\<lambda>a b. localeCompare (server_name a) (server_name b) \<le> 0) (mcp_servers M)
    \<and> mset (mcp_servers M) = mset (mcpServers result)
    \<and> (\<forall>result' now' scannedPath' filesScanned' durationMs'.
          mset (tools result') = mset (tools result)
          \<and> (\<forall>a\<in>set (tools result). \<forall>b\<in>set (tools result).
                tool_risk a = tool_risk b
                \<and> localeCompare (units (tool_name a)) (units (tool_name b)) = 0 \<longrightarrow> a = b)
          \<longrightarrow> manifest_tools (createManifest localeCompare now' result' scannedPath' filesScanned' durationMs')
              = manifest_tools M)
    \<and> (\<forall>x :: Tool.
          filter (\<lambda>t. tool_risk t = tool_risk x
                      \<and> localeCompare (units (tool_name t)) (units (tool_name x)) = 0)
            (manifest_tools M)
          = filter (\<lambda>t. tool_risk t = tool_risk x
                        \<and> localeCompare (units (tool_name t)) (units (tool_name x)) = 0)
              (tools result)))"
proof -
  let ?le = "\<lambda>a b. tool_compare localeCompare a b \<le> 0"
  have ct: "consistent_compare (tool_compare localeCompare)"
    by (rule consistent_tool_compare [OF assms])
  have st: "\<And>ts. sorted_wrt ?le (sort_by (tool_compare localeCompare) ts)"
    by (rule sorted_sort_by [OF ct])
  have sa: "sorted_wrt (\<lambda>a b. localeCompare (units (agent_name a)) (units (agent_name b)) \<le> 0)
       (sort_by (\<lambda>a b. localeCompare (units (agent_name a)) (units (agent_name b))) (agents result))"
    by (rule sorted_sort_by [OF consistent_on_key [OF assms]])
  have ss: "sorted_wrt (\<lambda>a b. localeCompare (server_name a) (server_name b) \<le> 0)
       (sort_by (\<lambda>a b. localeCompare (server_name a) (server_name b)) (mcpServers result))"
    by (rule sorted_sort_by [OF consistent_on_key [OF assms]])
  have indep: "sort_by (tool_compare localeCompare) (tools result')
      = sort_by (tool_compare localeCompare) (tools result)"
    if m: "mset (tools result') = mset (tools result)"
      and d: "\<forall>a\<in>set (tools result). \<forall>b\<in>set (tools result).
                tool_risk a = tool_risk b
                \<and> localeCompare (units (tool_name a)) (units (tool_name b)) = 0 \<longrightarrow> a = b"
    for result'
  proof (rule sorted_wrt_unique [where R = ?le])
    show "sorted_wrt ?le (sort_by (tool_compare localeCompare) (tools result'))" by (rule st)
    show "sorted_wrt ?le (sort_by (tool_compare localeCompare) (tools result))" by (rule st)
    show "mset (sort_by (tool_compare localeCompare) (tools result'))
        = mset (sort_by (tool_compare localeCompare) (tools result))"
      by (simp add: mset_sort_by m)
  next
    fix a b
    assume a: "a \<in> set (sort_by (tool_compare localeCompare) (tools result'))"
      and b: "b \<in> set (sort_by (tool_compare localeCompare) (tools result'))"
      and ab: "tool_compare localeCompare a b \<le> 0" and ba: "tool_compare localeCompare b a \<le> 0"
    have "set (tools result') = set (tools result)" using m by (metis set_mset_mset)
    then have "a \<in> set (tools result)" "b \<in> set (tools result)" using a b by (simp_all add: set_sort_by)
    then show "a = b" using d [rule_format, of a b] tool_compare_antisym [OF assms ab ba] by simp
  qed
  have st': "sorted_wrt (\<lambda>a b. riskOrder (tool_risk a) < riskOrder (tool_risk b)
          \<or> (tool_risk a = tool_risk b
              \<and> localeCompare (units (tool_name a)) (units (tool_name b)) \<le> 0))
        (sort_by (tool_compare localeCompare) (tools result))"
    using st [of "tools result"] by (simp add: tool_compare_le)
  have ro: "riskOrder HIGH < riskOrder MEDIUM \<and> riskOrder MEDIUM < riskOrder LOW" by simp
  show ?thesis
    unfolding Let_def createManifest_fields
  proof (intro conjI allI impI)
    show "riskOrder HIGH < riskOrder MEDIUM" by simp
    show "riskOrder MEDIUM < riskOrder LOW" by simp
    show "sorted_wrt (\<lambda>a b. riskOrder (tool_risk a) < riskOrder (tool_risk b)
          \<or> (tool_risk a = tool_risk b
              \<and> localeCompare (units (tool_name a)) (units (tool_name b)) \<le> 0))
        (sort_by (tool_compare localeCompare) (tools result))" by (rule st')
    show "mset (sort_by (tool_compare localeCompare) (tools result)) = mset (tools result)"
      by (rule mset_sort_by)
    show "sorted_wrt (\<lambda>a b. localeCompare (units (agent_name a)) (units (agent_name b)) \<le> 0)
       (sort_by (\<lambda>a b. localeCompare (units (agent_name a)) (units (agent_name b))) (agents result))"
      by (rule sa)
    show "mset (sort_by (\<lambda>a b. localeCompare (units (agent_name a)) (units (agent_name b))) (agents result))
        = mset (agents result)" by (rule mset_sort_by)
    show "sorted_wrt (\<lambda>a b. localeCompare (server_name a) (server_name b) \<le> 0)
       (sort_by (\<lambda>a b. localeCompare (server_name a) (server_name b)) (mcpServers result))"
      by (rule ss)
    show "mset (sort_by (\<lambda>a b. localeCompare (server_name a) (server_name b)) (mcpServers result))
        = mset (mcpServers result)" by (rule mset_sort_by)
  next
    fix result' :: DetectorResult
    assume "mset (tools result') = mset (tools result)
          \<and> (\<forall>a\<in>set (tools result). \<forall>b\<in>set (tools result).
                tool_risk a = tool_risk b
                \<and> localeCompare (units (tool_name a)) (units (tool_name b)) = 0 \<longrightarrow> a = b)"
    then show "sort_by (tool_compare localeCompare) (tools result')
      = sort_by (tool_compare localeCompare) (tools result)"
      using indep [of result'] by (elim conjE)
  next
    fix x :: Tool
    show "filter (\<lambda>t. tool_risk t = tool_risk x
                      \<and> localeCompare (units (tool_name t)) (units (tool_name x)) = 0)
            (sort_by (tool_compare localeCompare) (tools result))
          = filter (\<lambda>t. tool_risk t = tool_risk x
                        \<and> localeCompare (units (tool_name t)) (units (tool_name x)) = 0)
              (tools result)"
      by (rule tools_stable [OF assms])
  qed
qed

theorem createManifest_sorted_witness:
  "consistent_compare codeunit_compare
   \<and> manifest_tools (createManifest codeunit_compare ''2026-01-01T00:00:00.000Z''
        \<lparr> tools =
            [\<lparr> tool_name = ''list_rows'', tool_framework = FW_mcp, tool_source = ''a.py:9'',
               tool_line = 9, tool_permission = READ, tool_risk = LOW, tool_description = None,
               tool_parameters = None, tool_version = None \<rparr>,
             \<lparr> tool_name = ''run_job'', tool_framework = FW_mcp, tool_source = ''a.py:5'',
               tool_line = 5, tool_permission = EXECUTE, tool_risk = HIGH, tool_description = None,
               tool_parameters = None, tool_version = None \<rparr>,
             \<lparr> tool_name = ''get_row'', tool_framework = FW_mcp, tool_source = ''a.py:1'',
               tool_line = 1, tool_permission = READ, tool_risk = LOW, tool_description = None,
               tool_parameters = None, tool_version = None \<rparr>],
          agents = [], mcpServers = [] \<rparr> ''/repo'' 1 7)
     = [\<lparr> tool_name = ''run_job'', tool_framework = FW_mcp, tool_source = ''a.py:5'',
               tool_line = 5, tool_permission = EXECUTE, tool_risk = HIGH, tool_description = None,
               tool_parameters = None, tool_version = None \<rparr>,
        \<lparr> tool_name = ''get_row'', tool_framework = FW_mcp, tool_source = ''a.py:1'',
               tool_line = 1, tool_permission = READ, tool_risk = LOW, tool_description = None,
               tool_parameters = None, tool_version = None \<rparr>,
        \<lparr> tool_name = ''list_rows'', tool_framework = FW_mcp, tool_source = ''a.py:9'',
               tool_line = 9, tool_permission = READ, tool_risk = LOW, tool_description = None,
               tool_parameters = None, tool_version = None \<rparr>]
   \<and> sorted_wrt (\<lambda>a b. riskOrder (tool_risk a) < riskOrder (tool_risk b)
          \<or> (tool_risk a = tool_risk b
              \<and> codeunit_compare (units (tool_name a)) (units (tool_name b)) \<le> 0))
       [\<lparr> tool_name = ''run_job'', tool_framework = FW_mcp, tool_source = ''a.py:5'',
               tool_line = 5, tool_permission = EXECUTE, tool_risk = HIGH, tool_description = None,
               tool_parameters = None, tool_version = None \<rparr>,
        \<lparr> tool_name = ''get_row'', tool_framework = FW_mcp, tool_source = ''a.py:1'',
               tool_line = 1, tool_permission = READ, tool_risk = LOW, tool_description = None,
               tool_parameters = None, tool_version = None \<rparr>,
        \<lparr> tool_name = ''list_rows'', tool_framework = FW_mcp, tool_source = ''a.py:9'',
               tool_line = 9, tool_permission = READ, tool_risk = LOW, tool_description = None,
               tool_parameters = None, tool_version = None \<rparr>]"
  (is "_ \<and> manifest_tools ?M = ?out \<and> sorted_wrt ?le ?out")
proof -
  have e: "manifest_tools ?M = ?out" by code_simp
  have "sorted_wrt ?le (manifest_tools ?M)"
    using createManifest_sorted [OF consistent_codeunit_compare]
    unfolding Let_def by (rule conjunct1 [OF conjunct2 [OF conjunct2]])
  then have s: "sorted_wrt ?le ?out" by (simp only: e)
  show ?thesis by (intro conjI) (rule consistent_codeunit_compare, rule e, rule s)
qed

text \<open>
  Claim C6 as it is worded, with the order of the tools independent of the order of the
  input, fails where two tools share risk and name: \<open>get_user\<close> found in \<open>a.py\<close> and in
  \<open>b.py\<close> are two tools for the deduplication (their sources differ) and equal for the
  comparison, so the stable sort leaves them as the input has them.
\<close>

theorem createManifest_input_order_counterexample:
  "manifest_tools (createManifest codeunit_compare ''2026-01-01T00:00:00.000Z''
        \<lparr> tools =
            [\<lparr> tool_name = ''get_user'', tool_framework = FW_custom, tool_source = ''a.py:1'',
               tool_line = 1, tool_permission = READ, tool_risk = LOW, tool_description = None,
               tool_parameters = None, tool_version = None \<rparr>,
             \<lparr> tool_name = ''get_user'', tool_framework = FW_custom, tool_source = ''b.py:1'',
               tool_line = 1, tool_permission = READ, tool_risk = LOW, tool_description = None,
               tool_parameters = None, tool_version = None \<rparr>],
          agents = [], mcpServers = [] \<rparr> ''/repo'' 2 7)
     = [\<lparr> tool_name = ''get_user'', tool_framework = FW_custom, tool_source = ''a.py:1'',
               tool_line = 1, tool_permission = READ, tool_risk = LOW, tool_description = None,
               tool_parameters = None, tool_version = None \<rparr>,
        \<lparr> tool_name = ''get_user'', tool_framework = FW_custom, tool_source = ''b.py:1'',
               tool_line = 1, tool_permission = READ, tool_risk = LOW, tool_description = None,
               tool_parameters = None, tool_version = None \<rparr>]
   \<and> manifest_tools (createManifest codeunit_compare ''2026-01-01T00:00:00.000Z''
        \<lparr> tools =
            [\<lparr> tool_name = ''get_user'', tool_framework = FW_custom, tool_source = ''b.py:1'',
               tool_line = 1, tool_permission = READ, tool_risk = LOW, tool_description = None,
               tool_parameters = None, tool_version = None \<rparr>,
             \<lparr> tool_name = ''get_user'', tool_framework = FW_custom, tool_source = ''a.py:1'',
               tool_line = 1, tool_permission = READ, tool_risk = LOW, tool_description = None,
               tool_parameters = None, tool_version = None \<rparr>],
          agents = [], mcpServers = [] \<rparr> ''/repo'' 2 7)
     = [\<lparr> tool_name = ''get_user'', tool_framework = FW_custom, tool_source = ''b.py:1'',
               tool_line = 1, tool_permission = READ, tool_risk = LOW, tool_description = None,
               tool_parameters = None, tool_version = None \<rparr>,
        \<lparr> tool_name = ''get_user'', tool_framework = FW_custom, tool_source = ''a.py:1'',
               tool_line = 1, tool_permission = READ, tool_risk = LOW, tool_description = None,
               tool_parameters = None, tool_version = None \<rparr>]
   \<and> manifest_tools (createManifest codeunit_compare ''2026-01-01T00:00:00.000Z''
        \<lparr> tools =
            [\<lparr> tool_name = ''get_user'', tool_framework = FW_custom, tool_source = ''a.py:1'',
               tool_line = 1, tool_permission = READ, tool_risk = LOW, tool_description = None,
               tool_parameters = None, tool_version = None \<rparr>,
             \<lparr> tool_name = ''get_user'', tool_framework = FW_custom, tool_source = ''b.py:1'',
               tool_line = 1, tool_permission = READ, tool_risk = LOW, tool_description = None,
               tool_parameters = None, tool_version = None \<rparr>],
          agents = [], mcpServers = [] \<rparr> ''/repo'' 2 7)
     \<noteq> manifest_tools (createManifest codeunit_compare ''2026-01-01T00:00:00.000Z''
        \<lparr> tools =
            [\<lparr> tool_name = ''get_user'', tool_framework = FW_custom, tool_source = ''b.py:1'',
               tool_line = 1, tool_permission = READ, tool_risk = LOW, tool_description = None,
               tool_parameters = None, tool_version = None \<rparr>,
             \<lparr> tool_name = ''get_user'', tool_framework = FW_custom, tool_source = ''a.py:1'',
               tool_line = 1, tool_permission = READ, tool_risk = LOW, tool_description = None,
               tool_parameters = None, tool_version = None \<rparr>],
          agents = [], mcpServers = [] \<rparr> ''/repo'' 2 7)
   \<and> deduplicateTools
        [\<lparr> tool_name = ''get_user'', tool_framework = FW_custom, tool_source = ''a.py:1'',
               tool_line = 1, tool_permission = READ, tool_risk = LOW, tool_description = None,
               tool_parameters = None, tool_version = None \<rparr>,
         \<lparr> tool_name = ''get_user'', tool_framework = FW_custom, tool_source = ''b.py:1'',
               tool_line = 1, tool_permission = READ, tool_risk = LOW, tool_description = None,
               tool_parameters = None, tool_version = None \<rparr>]
     = [\<lparr> tool_name = ''get_user'', tool_framework = FW_custom, tool_source = ''a.py:1'',
               tool_line = 1, tool_permission = READ, tool_risk = LOW, tool_description = None,
               tool_parameters = None, tool_version = None \<rparr>,
        \<lparr> tool_name = ''get_user'', tool_framework = FW_custom, tool_source = ''b.py:1'',
               tool_line = 1, tool_permission = READ, tool_risk = LOW, tool_description = None,
               tool_parameters = None, tool_version = None \<rparr>]"
  by code_simp

section \<open>Tool construction in the detectors\<close>

text \<open>The decimal digits of a number, as a template literal prints a line number.\<close>

function nat_to_string :: "nat \<Rightarrow> string" where
  "nat_to_string n =
     (if n < 10 then [char_of (48 + n)]
      else nat_to_string (n div 10) @ [char_of (48 + n mod 10)])"
  by pat_completeness auto
termination
  by (relation "measure id") auto

declare nat_to_string.simps [simp del]

text \<open>
  \<open>createTool\<close> spreads the properties it is given over the defaults.  Name, source and
  line are always given; of the others, the ones left out keep their default.
\<close>

record ToolPartial =
  p_name :: string
  p_source :: string
  p_line :: nat
  p_framework :: "Framework option"
  p_permission :: "Permission option"
  p_risk :: "RiskLevel option"
  p_description :: "string option"
  p_parameters :: "(string \<times> ParameterSchema) list option"
  p_version :: "string option"

definition createTool :: "ToolPartial \<Rightarrow> Tool" where
  "createTool partial =
     \<lparr> tool_name = p_name partial,
       tool_framework = (case p_framework partial of None \<Rightarrow> FW_unknown | Some f \<Rightarrow> f),
       tool_source = p_source partial,
       tool_line = p_line partial,
       tool_permission = (case p_permission partial of None \<Rightarrow> UNKNOWN | Some q \<Rightarrow> q),
       tool_risk = (case p_risk partial of None \<Rightarrow> MEDIUM | Some r \<Rightarrow> r),
       tool_description = p_description partial,
       tool_parameters = p_parameters partial,
       tool_version = p_version partial \<rparr>"

text \<open>
  \<open>PythonDetector.createToolFromName\<close>; \<open>docstrings\<close> is the detector's table from
  function names to the first line of their docstring.
\<close>

definition py_createToolFromName ::
  "(string \<rightharpoonup> string) \<Rightarrow> string \<Rightarrow> FileInfo \<Rightarrow> nat \<Rightarrow> Framework \<Rightarrow> Tool" where
  "py_createToolFromName docstrings name file line framework =
     (let description = docstrings name;
          permission = inferPermission name description;
          risk = inferRisk permission
      in createTool \<lparr> p_name = name,
                       p_source = relativePath file @ '':'' @ nat_to_string line,
                       p_line = line,
                       p_framework = Some framework,
                       p_permission = Some permission,
                       p_risk = Some risk,
                       p_description = description,
                       p_parameters = None,
                       p_version = None \<rparr>)"

text \<open>\<open>TypeScriptDetector.createToolFromName\<close>.\<close>

definition ts_createToolFromName ::
  "string \<Rightarrow> FileInfo \<Rightarrow> nat \<Rightarrow> Framework \<Rightarrow> string option \<Rightarrow> Tool" where
  "ts_createToolFromName name file line framework description =
     (let permission = inferPermission name description;
          risk = inferRisk permission
      in createTool \<lparr> p_name = name,
                       p_source = relativePath file @ '':'' @ nat_to_string line,
                       p_line = line,
                       p_framework = Some framework,
                       p_permission = Some permission,
                       p_risk = Some risk,
                       p_description = description,
                       p_parameters = None,
                       p_version = None \<rparr>)"

text \<open>
  The Go detector builds its tools in place: one per capability collected in
  \<open>detectCapabilities\<close>, and one per match that is not yet known in
  \<open>detectToolRegistrations\<close> and \<open>detectToolFunctions\<close>.
\<close>

record CapabilityInfo =
  cap_name :: string
  cap_prefix :: string
  cap_version :: "string option"
  cap_inputFields :: "(string \<times> ParameterSchema) list option"
  cap_line :: nat

definition go_capability_tool :: "CapabilityInfo \<Rightarrow> FileInfo \<Rightarrow> Tool" where
  "go_capability_tool capInfo file =
     (let permission = inferPermission (cap_name capInfo) None;
          risk = inferRisk permission
      in createTool \<lparr> p_name = cap_name capInfo,
                       p_source = relativePath file @ '':'' @ nat_to_string (cap_line capInfo),
                       p_line = cap_line capInfo,
                       p_framework = Some FW_custom,
                       p_permission = Some permission,
                       p_risk = Some risk,
                       p_description = None,
                       p_parameters = cap_inputFields capInfo,
                       p_version = cap_version capInfo \<rparr>)"

definition go_matched_tool :: "string \<Rightarrow> FileInfo \<Rightarrow> nat \<Rightarrow> Tool" where
  "go_matched_tool toolName file line =
     (let permission = inferPermission toolName None;
          risk = inferRisk permission
      in createTool \<lparr> p_name = toolName,
                       p_source = relativePath file @ '':'' @ nat_to_string line,
                       p_line = line,
                       p_framework = Some FW_custom,
                       p_permission = Some permission,
                       p_risk = Some risk,
                       p_description = None,
                       p_parameters = None,
                       p_version = None \<rparr>)"

text \<open>
  The tools a detector can put into its result: every \<open>result.tools.push\<close> of the four
  detectors takes the value of one of the constructions above (the configuration detector
  pushes no tool).  What the regular expressions match decides the arguments only.
\<close>

inductive detector_tool :: "Tool \<Rightarrow> bool" where
  python: "detector_tool (py_createToolFromName docstrings name file line framework)"
| typescript: "detector_tool (ts_createToolFromName name file line framework description)"
| go_capability: "detector_tool (go_capability_tool capInfo file)"
| go_matched: "detector_tool (go_matched_tool toolName file line)"

lemma detector_tool_risk: "detector_tool t \<Longrightarrow> tool_risk t = inferRisk (tool_permission t)"
  by (induction rule: detector_tool.induct)
     (simp_all add: py_createToolFromName_def ts_createToolFromName_def go_capability_tool_def
        go_matched_tool_def createTool_def Let_def)

lemma set_firsts: "set (firsts key seen xs) \<subseteq> set xs"
  by (induction xs arbitrary: seen) auto

lemma set_deduplicateTools: "set (deduplicateTools ts) \<subseteq> set ts"
  by (simp add: deduplicateTools_def fold_dedupe_step set_firsts)

lemma set_filterByFramework: "set (filterByFramework ts fw) \<subseteq> set ts"
  by (auto simp: filterByFramework_def)

lemma set_filterByRisk: "set (filterByRisk ts r) \<subseteq> set ts"
  by (auto simp: filterByRisk_def)

lemma assemble_tools_subset:
  "set (manifest_tools (scanCommand_assemble lc now result options p n d)) \<subseteq> set (tools result)"
proof -
  let ?r1 = "result \<lparr> tools := deduplicateTools (tools result),
                        agents := deduplicateAgents (agents result),
                        mcpServers := deduplicateMcpServers (mcpServers result) \<rparr>"
  let ?r2 = "case opt_framework options of
                  None \<Rightarrow> ?r1
                | Some fw \<Rightarrow> if fw = [] then ?r1 else ?r1 \<lparr> tools := filterByFramework (tools ?r1) fw \<rparr>"
  let ?r3 = "case opt_risk options of
                  None \<Rightarrow> ?r2
                | Some risk \<Rightarrow> if risk = [] then ?r2
                             else ?r2 \<lparr> tools := filterByRisk (tools ?r2) (toUpperCase risk) \<rparr>"
  have s1: "set (tools ?r1) \<subseteq> set (tools result)"
    using set_deduplicateTools [of "tools result"] by simp
  have s2: "set (tools ?r2) \<subseteq> set (tools ?r1)"
    using set_filterByFramework by (auto split: option.splits)
  have s3: "set (tools ?r3) \<subseteq> set (tools ?r2)"
    using set_filterByRisk by (cases "opt_risk options") auto
  have "manifest_tools (scanCommand_assemble lc now result options p n d)
      = sort_by (tool_compare lc) (tools ?r3)"
    by (simp add: scanCommand_assemble_def Let_def createManifest_fields)
  then have "set (manifest_tools (scanCommand_assemble lc now result options p n d))
      = set (tools ?r3)"
    by (simp only: set_sort_by)
  then show ?thesis using s1 s2 s3 by blast
qed

text \<open>
  Claim C3.  When the tools handed to the assembly are tools the detectors built, the risk
  of every tool of the manifest is the table \<open>inferRisk\<close> applied to its permission: DELETE
  and EXECUTE give HIGH, WRITE and UNKNOWN give MEDIUM, READ and OUTPUT give LOW.
\<close>

theorem manifest_risk_from_permission:
  assumes "\<forall>t\<in>set (tools result). detector_tool t"
  shows "(\<forall>t\<in>set (manifest_tools
              (scanCommand_assemble localeCompare now result options absolutePath nfiles duration)).
            tool_risk t = inferRisk (tool_permission t))
     \<and> inferRisk DELETE = HIGH \<and> inferRisk EXECUTE = HIGH \<and> inferRisk WRITE = MEDIUM
     \<and> inferRisk READ = LOW \<and> inferRisk OUTPUT = LOW \<and> inferRisk UNKNOWN = MEDIUM"
proof -
  have "tool_risk t = inferRisk (tool_permission t)"
    if "t \<in> set (manifest_tools
              (scanCommand_assemble localeCompare now result options absolutePath nfiles duration))"
    for t
  proof -
    have "t \<in> set (tools result)" using that assemble_tools_subset by blast
    then show ?thesis using assms detector_tool_risk by blast
  qed
  then show ?thesis by simp
qed

theorem manifest_risk_from_permission_witness:
  "detector_tool (py_createToolFromName Map.empty ''delete_user''
       \<lparr> path = ''/repo/app.py'', relativePath = ''app.py'', extension = ''.py'',
         content = ''@tool'' \<rparr> 1 FW_custom)
   \<and> manifest_tools (scanCommand_assemble codeunit_compare ''2026-01-01T00:00:00.000Z''
        \<lparr> tools = [py_createToolFromName Map.empty ''delete_user''
             \<lparr> path = ''/repo/app.py'', relativePath = ''app.py'', extension = ''.py'',
               content = ''@tool'' \<rparr> 1 FW_custom],
          agents = [], mcpServers = [] \<rparr>
        \<lparr> opt_output = None, opt_framework = None, opt_risk = Some ''high'', opt_json = None,
          opt_color = None \<rparr> ''/repo'' 1 7)
     = [\<lparr> tool_name = ''delete_user'', tool_framework = FW_custom, tool_source = ''app.py:1'',
          tool_line = 1, tool_permission = DELETE, tool_risk = HIGH, tool_description = None,
          tool_parameters = None, tool_version = None \<rparr>]
   \<and> tool_risk \<lparr> tool_name = ''delete_user'', tool_framework = FW_custom, tool_source = ''app.py:1'',
          tool_line = 1, tool_permission = DELETE, tool_risk = HIGH, tool_description = None,
          tool_parameters = None, tool_version = None \<rparr>
     = inferRisk (tool_permission \<lparr> tool_name = ''delete_user'', tool_framework = FW_custom,
          tool_source = ''app.py:1'', tool_line = 1, tool_permission = DELETE, tool_risk = HIGH,
          tool_description = None, tool_parameters = None, tool_version = None \<rparr>)"
  (is "detector_tool ?T \<and> manifest_tools ?M = [?t] \<and> _")
proof -
  have d: "detector_tool ?T" by (rule detector_tool.python)
  have e: "manifest_tools ?M = [?t]" by code_simp
  have "\<forall>t\<in>set (manifest_tools ?M). tool_risk t = inferRisk (tool_permission t)"
    by (rule conjunct1 [OF manifest_risk_from_permission]) (use d in simp)
  then have r: "tool_risk ?t = inferRisk (tool_permission ?t)" by (simp only: e) simp
  show ?thesis by (intro conjI) (rule d, rule e, rule r)
qed

section \<open>JSON.parse\<close>

text \<open>
  \<open>JSON.parse\<close> of ECMAScript, on the grammar of ECMA-404: white space is space, tab, line
  feed and carriage return; a text is one value.  A text that is not in the grammar makes
  \<open>JSON.parse\<close> throw a \<open>SyntaxError\<close>.
\<close>

datatype js_error = SyntaxError | TypeError

datatype token =
  TLBrace | TRBrace | TLBracket | TRBracket | TColon | TComma
| TString ustring | TNumber int int | TTrue | TFalse | TNull

definition json_ws :: "char \<Rightarrow> bool" where
  "json_ws c = (code c \<in> {32, 9, 10, 13})"

definition is_digit :: "char \<Rightarrow> bool" where
  "is_digit c = (48 \<le> code c \<and> code c \<le> 57)"

definition hex_value :: "char \<Rightarrow> nat option" where
  "hex_value c =
     (if 48 \<le> code c \<and> code c \<le> 57 then Some (code c - 48)
      else if 97 \<le> code c \<and> code c \<le> 102 then Some (code c - 87)
      else if 65 \<le> code c \<and> code c \<le> 70 then Some (code c - 55)
      else None)"

text \<open>The code unit a two-character escape stands for.\<close>

definition simple_escape :: "char \<Rightarrow> nat option" where
  "simple_escape e =
     (if e = CHR 0x22 then Some 34
      else if e = CHR 0x5C then Some 92
      else if e = CHR ''/'' then Some 47
      else if e = CHR ''b'' then Some 8
      else if e = CHR ''f'' then Some 12
      else if e = CHR ''n'' then Some 10
      else if e = CHR ''r'' then Some 13
      else if e = CHR ''t'' then Some 9
      else None)"

text \<open>
  One character of a string literal, escaped or not: its code unit and the text behind
  it.  Control characters below U+0020 must be escaped.
\<close>

definition lex_char :: "string \<Rightarrow> (nat \<times> string) option" where
  "lex_char s =
     (case s of
        [] \<Rightarrow> None
      | c # cs \<Rightarrow>
          if c = CHR 0x5C then
            (case cs of
               [] \<Rightarrow> None
             | e # cs' \<Rightarrow>
                 if e = CHR ''u'' then
                   (case cs' of
                      h1 # h2 # h3 # h4 # cs'' \<Rightarrow>
                        (case (hex_value h1, hex_value h2, hex_value h3, hex_value h4) of
                           (Some a, Some b, Some c, Some d) \<Rightarrow>
                             Some (((a * 16 + b) * 16 + c) * 16 + d, cs'')
                         | _ \<Rightarrow> None)
                    | _ \<Rightarrow> None)
                 else (case simple_escape e of
                         None \<Rightarrow> None
                       | Some u \<Rightarrow> Some (u, cs')))
          else if code c < 32 then None
          else Some (code c, cs))"

lemma lex_char_shorter: "lex_char s = Some (u, rest) \<Longrightarrow> length rest < length s"
  by (auto simp: lex_char_def split: list.splits if_splits option.splits)

text \<open>
  The rest of a string literal behind its opening quote: the code units of the string and
  the text behind the closing quote.
\<close>

function lex_string :: "string \<Rightarrow> (ustring \<times> string) option" where
  "lex_string s =
     (case s of
        [] \<Rightarrow> None
      | c # cs \<Rightarrow>
          if c = CHR 0x22 then Some ([], cs)
          else (case lex_char s of
                  None \<Rightarrow> None
                | Some (u, rest) \<Rightarrow>
                    (case lex_string rest of
                       None \<Rightarrow> None
                     | Some (us, r) \<Rightarrow> Some (u # us, r))))"
  by pat_completeness auto
termination
  by (relation "measure length") (auto dest: lex_char_shorter)

declare lex_string.simps [simp del]

text \<open>The number a string of decimal digits denotes.\<close>

definition digits_value :: "string \<Rightarrow> nat" where
  "digits_value ds = foldl (\<lambda>n d. 10 * n + (code d - 48)) 0 ds"

text \<open>
  A number literal at the head of the text: an optional minus, an integer part (a single
  zero, or digits that do not start with zero), an optional fraction, an optional exponent.
  Each part gives what it read and the text behind it.
\<close>

definition lex_int :: "string \<Rightarrow> (string \<times> string) option" where
  "lex_int s =
     (case s of
        [] \<Rightarrow> None
      | c # cs \<Rightarrow>
          if c = CHR ''0'' then Some ([c], cs)
          else if is_digit c then Some (takeWhile is_digit s, dropWhile is_digit s)
          else None)"

definition lex_frac :: "string \<Rightarrow> (string \<times> string) option" where
  "lex_frac s =
     (case s of
        [] \<Rightarrow> Some ([], s)
      | c # cs \<Rightarrow>
          if c = CHR ''.'' then
            (if takeWhile is_digit cs = [] then None
             else Some (takeWhile is_digit cs, dropWhile is_digit cs))
          else Some ([], s))"

definition exp_sign :: "string \<Rightarrow> bool \<times> string" where
  "exp_sign cs =
     (case cs of
        [] \<Rightarrow> (False, cs)
      | d # cs' \<Rightarrow> if d = CHR ''-'' then (True, cs')
                   else if d = CHR ''+'' then (False, cs')
                   else (False, cs))"

definition lex_exp :: "string \<Rightarrow> (int \<times> string) option" where
  "lex_exp s =
     (case s of
        [] \<Rightarrow> Some (0, s)
      | c # cs \<Rightarrow>
          if c = CHR ''e'' \<or> c = CHR ''E'' then
            (let (eneg, ds) = exp_sign cs
             in if takeWhile is_digit ds = [] then None
                else Some ((if eneg then - int (digits_value (takeWhile is_digit ds))
                            else int (digits_value (takeWhile is_digit ds))),
                           dropWhile is_digit ds))
          else Some (0, s))"

text \<open>The literal with integer digits \<open>ip\<close>, fraction digits \<open>fp\<close> and exponent \<open>e\<close> has the
  value \<open>m * 10 ^ (e - length fp)\<close>, \<open>m\<close> the number written \<open>ip fp\<close>.\<close>

definition lex_number :: "string \<Rightarrow> (int \<times> int \<times> string) option" where
  "lex_number s =
     (let (neg, s1) = (case s of
                         [] \<Rightarrow> (False, s)
                       | c # cs \<Rightarrow> if c = CHR ''-'' then (True, cs) else (False, s))
      in case lex_int s1 of
           None \<Rightarrow> None
         | Some (ip, s2) \<Rightarrow>
             (case lex_frac s2 of
                None \<Rightarrow> None
              | Some (fp, s3) \<Rightarrow>
                  (case lex_exp s3 of
                     None \<Rightarrow> None
                   | Some (e, rest) \<Rightarrow>
                       Some ((if neg then - int (digits_value (ip @ fp))
                              else int (digits_value (ip @ fp))),
                             e - int (length fp), rest))))"

lemma lex_string_Nil: "lex_string [] = None"
  by (simp add: lex_string.simps)

lemma lex_string_Cons:
  "lex_string (c # cs) =
     (if c = CHR 0x22 then Some ([], cs)
      else (case lex_char (c # cs) of
              None \<Rightarrow> None
            | Some (u, rest) \<Rightarrow>
                (case lex_string rest of
                   None \<Rightarrow> None
                 | Some (us, r) \<Rightarrow> Some (u # us, r))))"
  by (simp add: lex_string.simps [of "c # cs"])

lemma lex_string_shorter: "lex_string s = Some (us, r) \<Longrightarrow> length r < length s"
proof (induction s arbitrary: us r rule: lex_string.induct)
  case (1 s)
  from 1(2) obtain c cs where s: "s = c # cs"
    by (cases s) (auto simp: lex_string_Nil)
  show ?case
  proof (cases "c = CHR 0x22")
    case True
    then show ?thesis using 1(2) s by (simp add: lex_string_Cons)
  next
    case False
    then obtain u rest where ch: "lex_char s = Some (u, rest)"
      using 1(2) s by (auto simp: lex_string_Cons split: option.splits)
    then obtain us' where rec: "lex_string rest = Some (us', r)"
      using 1(2) s False by (auto simp: lex_string_Cons split: option.splits)
    have "length r < length rest" using 1(1) [OF s False ch refl rec] .
    then show ?thesis using lex_char_shorter [OF ch] by simp
  qed
qed

lemma lex_int_shorter: "lex_int s = Some (ip, rest) \<Longrightarrow> length rest < length s"
proof -
  assume a: "lex_int s = Some (ip, rest)"
  then obtain c cs where s: "s = c # cs" by (cases s) (auto simp: lex_int_def)
  show ?thesis
  proof (cases "c = CHR ''0''")
    case True
    then show ?thesis using a s by (simp add: lex_int_def)
  next
    case False
    then have d: "is_digit c" and r: "rest = dropWhile is_digit cs"
      using a s by (auto simp: lex_int_def split: if_splits)
    then show ?thesis using s length_dropWhile_le [of is_digit cs] by simp
  qed
qed

lemma lex_frac_shorter: "lex_frac s = Some (fp, rest) \<Longrightarrow> length rest \<le> length s"
  using length_dropWhile_le [of is_digit "tl s"]
  by (cases s) (auto simp: lex_frac_def split: if_splits)

lemma exp_sign_shorter: "length (snd (exp_sign cs)) \<le> length cs"
  by (cases cs) (simp_all add: exp_sign_def)

lemma lex_exp_shorter: "lex_exp s = Some (e, rest) \<Longrightarrow> length rest \<le> length s"
proof (cases s)
  case Nil
  assume "lex_exp s = Some (e, rest)"
  then show ?thesis using Nil by (simp add: lex_exp_def)
next
  case (Cons c cs)
  assume a: "lex_exp s = Some (e, rest)"
  show ?thesis
  proof (cases "c = CHR ''e'' \<or> c = CHR ''E''")
    case False
    then show ?thesis using a Cons by (auto simp: lex_exp_def)
  next
    case True
    obtain eneg ds where es: "exp_sign cs = (eneg, ds)" by (cases "exp_sign cs") auto
    then have "rest = dropWhile is_digit ds"
      using a Cons True by (auto simp: lex_exp_def split: if_splits)
    moreover have "length ds \<le> length cs" using exp_sign_shorter [of cs] es by simp
    ultimately show ?thesis using Cons length_dropWhile_le [of is_digit ds] by simp
  qed
qed

lemma lex_number_shorter: "lex_number s = Some (m, e, rest) \<Longrightarrow> length rest < length s"
proof -
  assume a: "lex_number s = Some (m, e, rest)"
  obtain neg s1 where s1: "(case s of [] \<Rightarrow> (False, s)
       | c # cs \<Rightarrow> if c = CHR ''-'' then (True, cs) else (False, s)) = (neg, s1)"
    by (cases "(case s of [] \<Rightarrow> (False, s)
       | c # cs \<Rightarrow> if c = CHR ''-'' then (True, cs) else (False, s))") auto
  then have l1: "length s1 \<le> length s" by (cases s) (auto split: if_splits)
  from a s1 obtain ip s2 where i: "lex_int s1 = Some (ip, s2)"
    by (auto simp: lex_number_def split: option.splits)
  from a s1 i obtain fp s3 where f: "lex_frac s2 = Some (fp, s3)"
    by (auto simp: lex_number_def split: option.splits)
  from a s1 i f obtain e' where x: "lex_exp s3 = Some (e', rest)"
    by (auto simp: lex_number_def split: option.splits)
  show ?thesis
    using l1 lex_int_shorter [OF i] lex_frac_shorter [OF f] lex_exp_shorter [OF x] by simp
qed

text \<open>The tokens of a text, or nothing when some character starts no token.\<close>

function lex :: "string \<Rightarrow> token list option" where
  "lex [] = Some []"
| "lex (c # cs) =
     (if json_ws c then lex cs
      else if c = CHR ''{'' then map_option (Cons TLBrace) (lex cs)
      else if c = CHR ''}'' then map_option (Cons TRBrace) (lex cs)
      else if c = CHR ''['' then map_option (Cons TLBracket) (lex cs)
      else if c = CHR '']'' then map_option (Cons TRBracket) (lex cs)
      else if c = CHR '':'' then map_option (Cons TColon) (lex cs)
      else if c = CHR '','' then map_option (Cons TComma) (lex cs)
      else if c = CHR 0x22 then
        (case lex_string cs of
           None \<Rightarrow> None
         | Some (s, rest) \<Rightarrow> map_option (Cons (TString s)) (lex rest))
      else if c = CHR ''-'' \<or> is_digit c then
        (case lex_number (c # cs) of
           None \<Rightarrow> None
         | Some (m, e, rest) \<Rightarrow> map_option (Cons (TNumber m e)) (lex rest))
      else if startsWith (c # cs) ''true'' then map_option (Cons TTrue) (lex (drop 4 (c # cs)))
      else if startsWith (c # cs) ''false'' then map_option (Cons TFalse) (lex (drop 5 (c # cs)))
      else if startsWith (c # cs) ''null'' then map_option (Cons TNull) (lex (drop 4 (c # cs)))
      else None)"
  by pat_completeness auto
termination
proof (relation "measure length", goal_cases)
  case (9 c cs x2 s rest)
  then show ?case using lex_string_shorter [of cs s rest] by simp
next
  case (10 c cs x2 m y e rest)
  then show ?case using lex_number_shorter [of "c # cs" m e rest] by simp
qed auto

text \<open>
  The parser reads the tokens from left to right with a stack of the arrays and objects
  that are open.  A frame holds what its array or object has so far, and for an object the
  key that waits for its value.
\<close>

datatype frame = FArray "json list" | FObject "(ustring \<times> json) list" "ustring option"

datatype mode =
    ExpectValue        \<comment> \<open>at the start, behind a comma in an array, behind a colon\<close>
  | ExpectValueOrEnd   \<comment> \<open>behind an opening bracket\<close>
  | ExpectKeyOrEnd     \<comment> \<open>behind an opening brace\<close>
  | ExpectKey          \<comment> \<open>behind a comma in an object\<close>
  | ExpectColon        \<comment> \<open>behind a key\<close>
  | AfterValue         \<comment> \<open>behind a value inside an array or an object\<close>
  | Done json          \<comment> \<open>behind the value of the text\<close>

text \<open>
  A member whose key is there already replaces the value and keeps the place; a new key
  goes to the end.
\<close>

fun obj_put :: "ustring \<Rightarrow> json \<Rightarrow> (ustring \<times> json) list \<Rightarrow> (ustring \<times> json) list" where
  "obj_put k v [] = [(k, v)]"
| "obj_put k v ((k', v') # kvs) = (if k' = k then (k', v) # kvs else (k', v') # obj_put k v kvs)"

text \<open>A finished value goes into the frame on top, or is the value of the text.\<close>

fun put_value :: "json \<Rightarrow> frame list \<Rightarrow> (frame list \<times> mode) option" where
  "put_value v [] = Some ([], Done v)"
| "put_value v (FArray xs # st) = Some (FArray (xs @ [v]) # st, AfterValue)"
| "put_value v (FObject kvs (Some k) # st) = Some (FObject (obj_put k v kvs) None # st, AfterValue)"
| "put_value v (FObject kvs None # st) = None"

fun start_value :: "token \<Rightarrow> frame list \<Rightarrow> (frame list \<times> mode) option" where
  "start_value TNull st = put_value JNull st"
| "start_value TTrue st = put_value (JBool True) st"
| "start_value TFalse st = put_value (JBool False) st"
| "start_value (TNumber m e) st = put_value (JNumber m e) st"
| "start_value (TString s) st = put_value (JString s) st"
| "start_value TLBracket st = Some (FArray [] # st, ExpectValueOrEnd)"
| "start_value TLBrace st = Some (FObject [] None # st, ExpectKeyOrEnd)"
| "start_value _ st = None"

fun start_key :: "token \<Rightarrow> frame list \<Rightarrow> (frame list \<times> mode) option" where
  "start_key (TString k) (FObject kvs None # st) = Some (FObject kvs (Some k) # st, ExpectColon)"
| "start_key _ _ = None"

fun close_frame :: "token \<Rightarrow> frame list \<Rightarrow> (frame list \<times> mode) option" where
  "close_frame TRBracket (FArray xs # st) = put_value (JArray xs) st"
| "close_frame TRBrace (FObject kvs None # st) = put_value (JObject kvs) st"
| "close_frame _ _ = None"

fun parse_step :: "token \<Rightarrow> frame list \<times> mode \<Rightarrow> (frame list \<times> mode) option" where
  "parse_step t (st, ExpectValue) = start_value t st"
| "parse_step t (st, ExpectValueOrEnd) =
     (if t = TRBracket then close_frame t st else start_value t st)"
| "parse_step t (st, ExpectKeyOrEnd) =
     (if t = TRBrace then close_frame t st else start_key t st)"
| "parse_step t (st, ExpectKey) = start_key t st"
| "parse_step t (st, ExpectColon) = (if t = TColon then Some (st, ExpectValue) else None)"
| "parse_step t (st, AfterValue) =
     (if t = TComma then
        (case st of
           FArray xs # _ \<Rightarrow> Some (st, ExpectValue)
         | FObject kvs None # _ \<Rightarrow> Some (st, ExpectKey)
         | _ \<Rightarrow> None)
      else close_frame t st)"
| "parse_step t (st, Done v) = None"

fun parse_tokens :: "token list \<Rightarrow> frame list \<times> mode \<Rightarrow> json option" where
  "parse_tokens [] (st, m) = (case m of Done v \<Rightarrow> Some v | _ \<Rightarrow> None)"
| "parse_tokens (t # ts) s =
     (case parse_step t s of
        None \<Rightarrow> None
      | Some s' \<Rightarrow> parse_tokens ts s')"

definition JSON_parse :: "string \<Rightarrow> js_error + json" where
  "JSON_parse text =
     (case lex text of
        None \<Rightarrow> Inl SyntaxError
      | Some ts \<Rightarrow>
          (case parse_tokens ts ([], ExpectValue) of
             None \<Rightarrow> Inl SyntaxError
           | Some v \<Rightarrow> Inr v))"

section \<open>Regular expressions\<close>

text \<open>
  The regular expressions that are modelled are alternatives of sequences of these items:
  a literal text, one character of a class, and a class with \<open>?\<close>, \<open>*\<close> or \<open>+\<close> (greedy), and
  the end of the input \<open>$\<close>.  Matching backtracks as ECMAScript does: an item offers the
  ways it can match in its order of preference, and the first way for which the rest of the
  sequence matches is taken.
\<close>

datatype item =
    Lit string
  | One "char \<Rightarrow> bool"
  | Opt "char \<Rightarrow> bool"
  | Star "char \<Rightarrow> bool"
  | Plus "char \<Rightarrow> bool"
  | EndOfInput

record RegExp =
  alternatives :: "item list list"
  ignoreCase :: bool

text \<open>
  With the flag \<open>i\<close> characters are compared by their canonical form, the upper-case
  mapping where that is a single code unit.  (The classes used under \<open>i\<close> hold no letters.)
\<close>

definition canonicalize :: "char \<Rightarrow> nat" where
  "canonicalize c = (case upper_char c of [u] \<Rightarrow> u | _ \<Rightarrow> code c)"

fun match_item :: "bool \<Rightarrow> item \<Rightarrow> string \<Rightarrow> string list" where
  "match_item ic (Lit l) s =
     (if length l \<le> length s \<and>
         (if ic then map canonicalize (take (length l) s) = map canonicalize l
          else take (length l) s = l)
      then [drop (length l) s] else [])"
| "match_item ic (One P) s = (case s of [] \<Rightarrow> [] | c # cs \<Rightarrow> if P c then [cs] else [])"
| "match_item ic (Opt P) s = (case s of [] \<Rightarrow> [s] | c # cs \<Rightarrow> if P c then [cs, s] else [s])"
| "match_item ic (Star P) s = map (\<lambda>k. drop k s) (rev [0 ..< Suc (length (takeWhile P s))])"
| "match_item ic (Plus P) s = map (\<lambda>k. drop k s) (rev [1 ..< Suc (length (takeWhile P s))])"
| "match_item ic EndOfInput s = (if s = [] then [s] else [])"

fun first_some :: "'a option list \<Rightarrow> 'a option" where
  "first_some [] = None"
| "first_some (None # xs) = first_some xs"
| "first_some (Some x # xs) = Some x"

text \<open>The text behind the match of a sequence at the head of \<open>s\<close>.\<close>

fun match_seq :: "bool \<Rightarrow> item list \<Rightarrow> string \<Rightarrow> string option" where
  "match_seq ic [] s = Some s"
| "match_seq ic (i # items) s = first_some (map (match_seq ic items) (match_item ic i s))"

definition match_here :: "RegExp \<Rightarrow> string \<Rightarrow> string option" where
  "match_here re s = first_some (map (\<lambda>alt. match_seq (ignoreCase re) alt s) (alternatives re))"

text \<open>
  The first match at or behind position \<open>pos\<close>, where \<open>s\<close> is the text from \<open>pos\<close> on: the
  index where it starts and the index behind its end.
\<close>

fun search :: "RegExp \<Rightarrow> string \<Rightarrow> nat \<Rightarrow> (nat \<times> nat) option" where
  "search re [] pos =
     (case match_here re [] of None \<Rightarrow> None | Some rest \<Rightarrow> Some (pos, pos))"
| "search re (c # cs) pos =
     (case match_here re (c # cs) of
        Some rest \<Rightarrow> Some (pos, pos + (length (c # cs) - length rest))
      | None \<Rightarrow> search re cs (Suc pos))"

text \<open>\<open>RegExp.prototype.test\<close> of a regular expression without the flags \<open>g\<close> and \<open>y\<close>.\<close>

definition regexp_test :: "RegExp \<Rightarrow> string \<Rightarrow> bool" where
  "regexp_test re s = (search re s 0 \<noteq> None)"

text \<open>
  \<open>RegExp.prototype.test\<close> of a regular expression with the flag \<open>g\<close>: the search starts at
  the \<open>lastIndex\<close> of the object; a match leaves \<open>lastIndex\<close> behind its end, a failure sets
  it to 0.  The result is the answer and the new \<open>lastIndex\<close>.
\<close>

definition regexp_test_global :: "RegExp \<Rightarrow> string \<Rightarrow> nat \<Rightarrow> bool \<times> nat" where
  "regexp_test_global re s lastIndex =
     (if length s < lastIndex then (False, 0)
      else (case search re (drop lastIndex s) lastIndex of
              None \<Rightarrow> (False, 0)
            | Some (start, e) \<Rightarrow> (True, e)))"

text \<open>The classes \<open>\w\<close>, \<open>[.\w]\<close>, \<open>["']\<close>, \<open>[^"']\<close>, \<open>[/\\]\<close> and \<open>[_-]\<close>; \<open>\s\<close> is \<open>is_space\<close>.\<close>

definition is_word :: "char \<Rightarrow> bool" where
  "is_word c = (is_lower_az c \<or> is_upper_AZ c \<or> (48 \<le> code c \<and> code c \<le> 57) \<or> c = CHR ''_'')"

definition is_dot_word :: "char \<Rightarrow> bool" where
  "is_dot_word c = (c = CHR ''.'' \<or> is_word c)"

definition is_quote :: "char \<Rightarrow> bool" where
  "is_quote c = (c = CHR 0x22 \<or> c = CHR 0x27)"

definition not_quote :: "char \<Rightarrow> bool" where
  "not_quote c = (\<not> is_quote c)"

definition is_slash :: "char \<Rightarrow> bool" where
  "is_slash c = (c = CHR ''/'' \<or> c = CHR 0x5C)"

definition is_underscore_hyphen :: "char \<Rightarrow> bool" where
  "is_underscore_hyphen c = (c = CHR ''_'' \<or> c = CHR ''-'')"

section \<open>Values at run time\<close>

text \<open>
  A value read out of the parsed configuration is a JSON value or \<open>undefined\<close>
  (\<open>None\<close>).  \<open>truthy\<close> is the conversion to boolean that \<open>if\<close>, \<open>!\<close> and \<open>||\<close> apply: \<open>undefined\<close>,
  \<open>null\<close>, \<open>false\<close>, zero and the empty string are falsy.  A number literal is zero when its
  digits are, or when it is so small that it rounds to zero (at most \<open>2 ^ -1075\<close>).
\<close>

definition number_nonzero :: "int \<Rightarrow> int \<Rightarrow> bool" where
  "number_nonzero m e = (m \<noteq> 0 \<and> (0 \<le> e \<or> 10 ^ nat (- e) < \<bar>m\<bar> * 2 ^ 1075))"

fun truthy :: "json option \<Rightarrow> bool" where
  "truthy None = False"
| "truthy (Some JNull) = False"
| "truthy (Some (JBool b)) = b"
| "truthy (Some (JNumber m e)) = number_nonzero m e"
| "truthy (Some (JString s)) = (s \<noteq> [])"
| "truthy (Some (JArray xs)) = True"
| "truthy (Some (JObject kvs)) = True"

text \<open>\<open>typeof v === 'object'\<close>.\<close>

fun typeof_object :: "json \<Rightarrow> bool" where
  "typeof_object JNull = True"
| "typeof_object (JArray xs) = True"
| "typeof_object (JObject kvs) = True"
| "typeof_object _ = False"

text \<open>
  Reading a property.  On \<open>null\<close> it throws a \<open>TypeError\<close>.  An object gives the member
  with that key.  The names read below (\<open>mcpServers\<close>, \<open>servers\<close>, \<open>command\<close>, \<open>args\<close>, \<open>env\<close>,
  \<open>url\<close>) are no properties of arrays, strings, numbers and booleans, nor of
  \<open>Object.prototype\<close>, so everything else gives \<open>undefined\<close>.
\<close>

fun get_property :: "json \<Rightarrow> string \<Rightarrow> js_error + json option" where
  "get_property JNull k = Inl TypeError"
| "get_property (JObject kvs) k = Inr (map_of kvs (units k))"
| "get_property _ k = Inr None"

text \<open>
  A property key is an array index when it is the decimal form of a number below
  \<open>2 ^ 32 - 1\<close>.  The own properties of an object are listed with the array indices first,
  in ascending order, then the other keys in insertion order.
\<close>

definition array_index :: "ustring \<Rightarrow> int option" where
  "array_index k =
     (if k \<noteq> [] \<and> list_all (\<lambda>u. 48 \<le> u \<and> u \<le> 57) k \<and> (hd k \<noteq> 48 \<or> length k = 1)
         \<and> foldl (\<lambda>n u. 10 * n + (int u - 48)) 0 k < 4294967295
      then Some (foldl (\<lambda>n u. 10 * n + (int u - 48)) 0 k) else None)"

definition own_property_order :: "(ustring \<times> json) list \<Rightarrow> (ustring \<times> json) list" where
  "own_property_order kvs =
     map snd (sort_key fst (List.map_filter (\<lambda>kv. map_option (\<lambda>i. (i, kv)) (array_index (fst kv))) kvs))
     @ filter (\<lambda>kv. array_index (fst kv) = None) kvs"

text \<open>
  \<open>Object.entries\<close>: the members of an object, the elements of an array under their
  indices, the code units of a string under theirs, nothing for a number or a boolean, and
  a \<open>TypeError\<close> for \<open>null\<close>.
\<close>

fun Object_entries :: "json \<Rightarrow> js_error + (ustring \<times> json) list" where
  "Object_entries JNull = Inl TypeError"
| "Object_entries (JObject kvs) = Inr (own_property_order kvs)"
| "Object_entries (JArray xs) = Inr (map (\<lambda>(i, x). (units (nat_to_string i), x)) (enumerate 0 xs))"
| "Object_entries (JString s) =
     Inr (map (\<lambda>(i, u). (units (nat_to_string i), JString [u])) (enumerate 0 s))"
| "Object_entries _ = Inr []"

section \<open>The configuration detector\<close>

definition MCP_CONFIG_FILES :: "string list" where
  "MCP_CONFIG_FILES = [''mcp_settings.json'', ''mcp.json'', ''claude_desktop_config.json'']"

definition MCP_PATH_PATTERNS :: "RegExp list" where
  "MCP_PATH_PATTERNS =
     [\<lparr> alternatives = [[Lit ''.cursor'', One is_slash, Lit ''mcp.json'', EndOfInput]],
        ignoreCase = False \<rparr>,
      \<lparr> alternatives = [[Lit ''mcp'', Opt is_underscore_hyphen, Lit ''settings.json'', EndOfInput]],
        ignoreCase = True \<rparr>,
      \<lparr> alternatives = [[Lit ''mcp'', Opt is_underscore_hyphen, Lit ''config.json'', EndOfInput]],
        ignoreCase = True \<rparr>]"

definition emptyResult :: DetectorResult where
  "emptyResult = \<lparr> tools = [], agents = [], mcpServers = [] \<rparr>"

text \<open>\<open>createMcpServer\<close> copies the properties it is given.\<close>

definition createMcpServer :: "McpServer \<Rightarrow> McpServer" where
  "createMcpServer partial = partial"

text \<open>\<open>relativePath.split(/[/\\]/).pop() || ''\<close>: the text behind the last slash.\<close>

definition last_segment :: "string \<Rightarrow> string" where
  "last_segment p = rev (takeWhile (\<lambda>c. \<not> is_slash c) (rev p))"

definition isMcpConfigFile :: "FileInfo \<Rightarrow> bool" where
  "isMcpConfigFile file =
     (let filename = last_segment (relativePath file)
      in if filename \<in> set MCP_CONFIG_FILES then True
         else if list_ex (\<lambda>pattern. regexp_test pattern (relativePath file)) MCP_PATH_PATTERNS then True
         else if str_includes (content file) ''mcpServers''
                 \<or> (str_includes (content file) [CHR 0x22, CHR ''s'', CHR ''e'', CHR ''r'', CHR ''v'',
                                                   CHR ''e'', CHR ''r'', CHR ''s'', CHR 0x22]
                     \<and> str_includes (content file) [CHR 0x22, CHR ''c'', CHR ''o'', CHR ''m'', CHR ''m'',
                                                     CHR ''a'', CHR ''n'', CHR ''d'', CHR 0x22])
              then True
         else False)"

text \<open>
  \<open>parseServerConfig\<close> is called with an array or an object only; reading a property of
  those does not throw.  \<open>when_truthy\<close> is the test \<open>if (v)\<close> that keeps the value for the
  branch.
\<close>

definition read_property :: "json \<Rightarrow> string \<Rightarrow> json option" where
  "read_property v k = (case get_property v k of Inl _ \<Rightarrow> None | Inr x \<Rightarrow> x)"

definition when_truthy :: "json option \<Rightarrow> json option" where
  "when_truthy v = (if truthy v then v else None)"

definition parseServerConfig :: "ustring \<Rightarrow> json \<Rightarrow> FileInfo \<Rightarrow> McpServer option" where
  "parseServerConfig name config file =
     (case when_truthy (read_property config ''command'') of
        Some command \<Rightarrow>
          Some (createMcpServer \<lparr> server_name = name,
                                  server_command = command,
                                  server_args = read_property config ''args'',
                                  server_env = read_property config ''env'',
                                  server_source = relativePath file,
                                  server_tools = None \<rparr>)
      | None \<Rightarrow>
          (case when_truthy (read_property config ''url'') of
             Some url \<Rightarrow>
               Some (createMcpServer \<lparr> server_name = name,
                                       server_command = url,
                                       server_args = None,
                                       server_env = None,
                                       server_source = relativePath file,
                                       server_tools = None \<rparr>)
           | None \<Rightarrow> None))"

text \<open>\<open>config.mcpServers || config.servers || {}\<close>; reading a property of \<open>null\<close> throws.\<close>

definition servers_of :: "json \<Rightarrow> js_error + json" where
  "servers_of config =
     (case get_property config ''mcpServers'' of
        Inl e \<Rightarrow> Inl e
      | Inr m \<Rightarrow>
          (case when_truthy m of
             Some v \<Rightarrow> Inr v
           | None \<Rightarrow>
               (case get_property config ''servers'' of
                  Inl e \<Rightarrow> Inl e
                | Inr m' \<Rightarrow>
                    (case when_truthy m' of
                       Some v \<Rightarrow> Inr v
                     | None \<Rightarrow> Inr (JObject [])))))"

text \<open>The body of the loop over the entries: the server it pushes, if any.\<close>

definition entry_server :: "FileInfo \<Rightarrow> ustring \<times> json \<Rightarrow> McpServer option" where
  "entry_server file entry =
     (case entry of (serverName, serverConfig) \<Rightarrow>
        if \<not> truthy (Some serverConfig) \<or> \<not> typeof_object serverConfig then None
        else parseServerConfig serverName serverConfig file)"

text \<open>
  The body of the \<open>try\<close> block of \<open>detect\<close>: the servers it pushes, or the error it throws.
  Everything that can throw comes before the first push.
\<close>

definition detect_servers :: "FileInfo \<Rightarrow> js_error + McpServer list" where
  "detect_servers file =
     (case JSON_parse (content file) of
        Inl e \<Rightarrow> Inl e
      | Inr config \<Rightarrow>
          (case servers_of config of
             Inl e \<Rightarrow> Inl e
           | Inr servers \<Rightarrow>
               (case Object_entries servers of
                  Inl e \<Rightarrow> Inl e
                | Inr entries \<Rightarrow> Inr (List.map_filter (entry_server file) entries))))"

text \<open>\<open>McpConfigDetector.detect\<close>: whatever the \<open>try\<close> block throws is caught and dropped.\<close>

definition detect :: "FileInfo \<Rightarrow> DetectorResult" where
  "detect file =
     (let result = emptyResult
      in if \<not> isMcpConfigFile file then result
         else (case detect_servers file of
                 Inl e \<Rightarrow> result
               | Inr servers \<Rightarrow> result \<lparr> mcpServers := mcpServers result @ servers \<rparr>))"

section \<open>Properties of the configuration detector\<close>

text \<open>
  Claim C7.  The file \<open>mcp.json\<close> with the content
  \<open>{"mcpServers": {"fs": {"command": "npx", "args": ["x"]}}}\<close> gives one server, named
  \<open>fs\<close>, with the command \<open>npx\<close>, and no tools and no agents.
\<close>

theorem detect_mcp_json_example:
  \<open>detect \<lparr> path = ''/repo/mcp.json'', relativePath = ''mcp.json'', extension = ''.json'',
            content = ''{"mcpServers": {"fs": {"command": "npx", "args": ["x"]}}}'' \<rparr>
   = \<lparr> tools = [], agents = [],
       mcpServers = [\<lparr> server_name = units ''fs'',
                       server_command = JString (units ''npx''),
                       server_args = Some (JArray [JString (units ''x'')]),
                       server_env = None,
                       server_source = ''mcp.json'',
                       server_tools = None \<rparr>] \<rparr>\<close>
  by code_simp

lemma detect_cases:
  "detect file = emptyResult
   \<or> (\<exists>servers. isMcpConfigFile file \<and> detect_servers file = Inr servers
         \<and> detect file = \<lparr> tools = [], agents = [], mcpServers = servers \<rparr>)"
  by (cases "detect_servers file") (auto simp: detect_def emptyResult_def Let_def)

lemma detect_thrown: "detect_servers file = Inl e \<Longrightarrow> detect file = emptyResult"
  by (simp add: detect_def Let_def)

lemma detect_no_servers: "detect_servers file = Inr [] \<Longrightarrow> detect file = emptyResult"
  by (simp add: detect_def Let_def emptyResult_def)

lemma detect_tools_agents: "tools (detect file) = [] \<and> agents (detect file) = []"
  using detect_cases [of "file"] by (auto simp: emptyResult_def)

lemma servers_of_not_object:
  "\<forall>kvs. config \<noteq> JObject kvs \<Longrightarrow> servers_of config = Inl TypeError \<or> servers_of config = Inr (JObject [])"
  by (cases config) (simp_all add: servers_of_def when_truthy_def)

lemma servers_of_falsy:
  "\<not> truthy (read_property config ''mcpServers'') \<Longrightarrow> \<not> truthy (read_property config ''servers'')
     \<Longrightarrow> servers_of config = Inl TypeError \<or> servers_of config = Inr (JObject [])"
  by (cases config) (simp_all add: servers_of_def when_truthy_def read_property_def)

lemma own_property_order_Nil: "own_property_order [] = []"
  by (simp add: own_property_order_def List.map_filter_simps)

lemma detect_servers_empty_map:
  "JSON_parse (content file) = Inr config
     \<Longrightarrow> servers_of config = Inl TypeError \<or> servers_of config = Inr (JObject [])
     \<Longrightarrow> detect file = emptyResult"
proof -
  assume p: "JSON_parse (content file) = Inr config"
    and s: "servers_of config = Inl TypeError \<or> servers_of config = Inr (JObject [])"
  from s have "detect_servers file = Inl TypeError \<or> detect_servers file = Inr []"
    using p by (auto simp: detect_servers_def own_property_order_Nil List.map_filter_simps)
  then show ?thesis using detect_thrown detect_no_servers by blast
qed

lemma parseServerConfig_None:
  "\<not> truthy (read_property c ''command'') \<Longrightarrow> \<not> truthy (read_property c ''url'')
     \<Longrightarrow> parseServerConfig k c file = None"
  by (simp add: parseServerConfig_def when_truthy_def)

lemma entry_server_None:
  "(\<forall>kvs. c \<noteq> JObject kvs)
     \<or> (\<not> truthy (read_property c ''command'') \<and> \<not> truthy (read_property c ''url''))
   \<Longrightarrow> entry_server file (k, c) = None"
  by (cases c)
     (auto simp: entry_server_def parseServerConfig_None parseServerConfig_def when_truthy_def
        read_property_def)

lemma map_filter_all_None: "\<forall>x\<in>set xs. f x = None \<Longrightarrow> List.map_filter f xs = []"
  by (induction xs) (simp_all add: List.map_filter_simps)

text \<open>
  What is dropped.  The detector throws nothing: what its \<open>try\<close> block throws is caught and
  leaves the empty batch.  The batch is empty when the content is not valid JSON, when it
  is \<open>null\<close> or another value that is no object, when it has neither a truthy \<open>mcpServers\<close>
  nor a truthy \<open>servers\<close> member, and when no entry of that member is an object with a
  truthy \<open>command\<close> or \<open>url\<close>.  There are never tools or agents in the batch.
\<close>

theorem detect_malformed_empty:
  "(\<forall>e. JSON_parse (content file) = Inl e \<longrightarrow> detect file = emptyResult)
   \<and> (\<forall>e. detect_servers file = Inl e \<longrightarrow> detect file = emptyResult)
   \<and> (\<forall>config. JSON_parse (content file) = Inr config \<and> (\<forall>kvs. config \<noteq> JObject kvs)
         \<longrightarrow> detect file = emptyResult)
   \<and> (\<forall>config. JSON_parse (content file) = Inr config
         \<and> \<not> truthy (read_property config ''mcpServers'')
         \<and> \<not> truthy (read_property config ''servers'')
         \<longrightarrow> detect file = emptyResult)
   \<and> (\<forall>config servers entries.
         JSON_parse (content file) = Inr config \<and> servers_of config = Inr servers
         \<and> Object_entries servers = Inr entries
         \<and> (\<forall>(k, c)\<in>set entries.
               (\<forall>kvs. c \<noteq> JObject kvs)
               \<or> (\<not> truthy (read_property c ''command'') \<and> \<not> truthy (read_property c ''url'')))
         \<longrightarrow> detect file = emptyResult)
   \<and> tools (detect file) = [] \<and> agents (detect file) = []"
proof (intro conjI allI impI)
  fix e assume "JSON_parse (content file) = Inl e"
  then have "detect_servers file = Inl e" by (simp add: detect_servers_def)
  then show "detect file = emptyResult" by (rule detect_thrown)
next
  fix e assume "detect_servers file = Inl e"
  then show "detect file = emptyResult" by (rule detect_thrown)
next
  fix config assume "JSON_parse (content file) = Inr config \<and> (\<forall>kvs. config \<noteq> JObject kvs)"
  then show "detect file = emptyResult"
    using detect_servers_empty_map servers_of_not_object by blast
next
  fix config
  assume "JSON_parse (content file) = Inr config
         \<and> \<not> truthy (read_property config ''mcpServers'')
         \<and> \<not> truthy (read_property config ''servers'')"
  then show "detect file = emptyResult"
    using detect_servers_empty_map servers_of_falsy by blast
next
  fix config servers entries
  assume a: "JSON_parse (content file) = Inr config \<and> servers_of config = Inr servers
         \<and> Object_entries servers = Inr entries
         \<and> (\<forall>(k, c)\<in>set entries.
               (\<forall>kvs. c \<noteq> JObject kvs)
               \<or> (\<not> truthy (read_property c ''command'') \<and> \<not> truthy (read_property c ''url'')))"
  then have "\<forall>x\<in>set entries. entry_server file x = None"
    using entry_server_None by fastforce
  then have "List.map_filter (entry_server file) entries = []" by (rule map_filter_all_None)
  then have "detect_servers file = Inr []" using a by (simp add: detect_servers_def)
  then show "detect file = emptyResult" by (rule detect_no_servers)
next
  show "tools (detect file) = []" using detect_tools_agents by blast
  show "agents (detect file) = []" using detect_tools_agents by blast
qed

theorem detect_malformed_empty_witness:
  \<open>JSON_parse ''{"mcpServers": {"fs": '' = Inl SyntaxError
   \<and> detect \<lparr> path = ''/repo/mcp.json'', relativePath = ''mcp.json'', extension = ''.json'',
              content = ''{"mcpServers": {"fs": '' \<rparr> = emptyResult
   \<and> JSON_parse ''{"mcpServers": {"fs": "npx", "db": {"args": ["x"]}}}''
       = Inr (JObject [(units ''mcpServers'',
                JObject [(units ''fs'', JString (units ''npx'')),
                         (units ''db'', JObject [(units ''args'', JArray [JString (units ''x'')])])])])
   \<and> detect \<lparr> path = ''/repo/mcp.json'', relativePath = ''mcp.json'', extension = ''.json'',
              content = ''{"mcpServers": {"fs": "npx", "db": {"args": ["x"]}}}'' \<rparr> = emptyResult\<close>
  (is "?p1 \<and> detect ?f1 = _ \<and> JSON_parse ?c2 = Inr ?v2 \<and> detect ?f2 = _")
proof -
  have p1: ?p1 by code_simp
  have p2: "JSON_parse ?c2 = Inr ?v2" by code_simp
  have d1: "detect ?f1 = emptyResult"
    using detect_malformed_empty [of ?f1] p1 by simp
  have s2: "servers_of ?v2 = Inr (JObject [(units ''fs'', JString (units ''npx'')),
                 (units ''db'', JObject [(units ''args'', JArray [JString (units ''x'')])])])"
    by code_simp
  have e2: "Object_entries (JObject [(units ''fs'', JString (units ''npx'')),
                 (units ''db'', JObject [(units ''args'', JArray [JString (units ''x'')])])])
      = Inr [(units ''fs'', JString (units ''npx'')),
             (units ''db'', JObject [(units ''args'', JArray [JString (units ''x'')])])]"
    by code_simp
  have n2: "\<not> truthy (read_property (JObject [(units ''args'', JArray [JString (units ''x'')])]) ''command'')
      \<and> \<not> truthy (read_property (JObject [(units ''args'', JArray [JString (units ''x'')])]) ''url'')"
    by code_simp
  have d2: "detect ?f2 = emptyResult"
    using detect_malformed_empty [of ?f2] p2 s2 e2 n2 by simp
  show ?thesis by (intro conjI) (rule p1, rule d1, rule p2, rule d2)
qed

text \<open>
  Claim C8, that a file whose content is not valid JSON or not of the expected shape gives
  the empty batch, fails on the code for the second half.  The \<open>catch\<close> block is commented
  \<open>Invalid JSON or unexpected format, skip\<close> and the interface \<open>McpConfigContent\<close> declares
  the server map as a record from names to configurations with a string \<open>command\<close>; but only
  the entries are tested for being objects.  A server map given as an array has its
  elements taken as servers, named by their index, and a command that is a number is
  copied as it is.
\<close>

theorem detect_unexpected_shape_emits_servers:
  \<open>JSON_parse ''{"mcpServers": [{"command": "npx"}]}''
     = Inr (JObject [(units ''mcpServers'', JArray [JObject [(units ''command'', JString (units ''npx''))]])])
   \<and> detect \<lparr> path = ''/repo/mcp.json'', relativePath = ''mcp.json'', extension = ''.json'',
              content = ''{"mcpServers": [{"command": "npx"}]}'' \<rparr>
     = \<lparr> tools = [], agents = [],
         mcpServers = [\<lparr> server_name = units ''0'',
                         server_command = JString (units ''npx''),
                         server_args = None, server_env = None,
                         server_source = ''mcp.json'', server_tools = None \<rparr>] \<rparr>
   \<and> detect \<lparr> path = ''/repo/mcp.json'', relativePath = ''mcp.json'', extension = ''.json'',
              content = ''{"mcpServers": [{"command": "npx"}]}'' \<rparr> \<noteq> emptyResult
   \<and> detect \<lparr> path = ''/repo/mcp.json'', relativePath = ''mcp.json'', extension = ''.json'',
              content = ''{"mcpServers": {"fs": {"command": 5}}}'' \<rparr>
     = \<lparr> tools = [], agents = [],
         mcpServers = [\<lparr> server_name = units ''fs'',
                         server_command = JNumber 5 0,
                         server_args = None, server_env = None,
                         server_source = ''mcp.json'', server_tools = None \<rparr>] \<rparr>\<close>
  by code_simp

lemma parseServerConfig_truthy:
  "parseServerConfig name config file = Some s \<Longrightarrow> truthy (Some (server_command s))"
  by (auto simp: parseServerConfig_def createMcpServer_def when_truthy_def
      split: option.splits if_splits)

lemma truthy_nonempty: "truthy (Some v) \<Longrightarrow> v \<noteq> JNull \<and> v \<noteq> JString []"
  by (cases v) auto

lemma set_map_filter: "y \<in> set (List.map_filter f xs) \<Longrightarrow> \<exists>x\<in>set xs. f x = Some y"
  by (induction xs) (auto simp: List.map_filter_simps split: option.splits)

lemma detect_server_origin:
  assumes "s \<in> set (mcpServers (detect file))"
  shows "\<exists>k c. parseServerConfig k c file = Some s"
proof -
  from assms obtain servers where ds: "detect_servers file = Inr servers" and s: "s \<in> set servers"
    using detect_cases [of "file"] by (auto simp: emptyResult_def)
  from ds obtain entries where "servers = List.map_filter (entry_server file) entries"
    by (auto simp: detect_servers_def split: sum.splits)
  then obtain x where "entry_server file x = Some s" using s set_map_filter by fastforce
  then show ?thesis by (cases x) (auto simp: entry_server_def split: if_splits)
qed

text \<open>
  What \<open>parseServerConfig\<close> does.  An entry with neither a \<open>command\<close> nor a \<open>url\<close> gives
  no server; an entry without a (truthy) \<open>command\<close> but with a truthy \<open>url\<close> gives a server
  whose command is that \<open>url\<close>; the command of every server the detector reports is
  truthy, so neither \<open>null\<close> nor the empty string.
\<close>

theorem parseServerConfig_command:
  "(read_property config ''command'' = None \<and> read_property config ''url'' = None
      \<longrightarrow> parseServerConfig name config file = None)
   \<and> (\<not> truthy (read_property config ''command'') \<and> truthy (read_property config ''url'')
      \<longrightarrow> (\<exists>s. parseServerConfig name config file = Some s
               \<and> read_property config ''url'' = Some (server_command s)))
   \<and> (\<forall>s. parseServerConfig name config file = Some s \<longrightarrow> truthy (Some (server_command s)))
   \<and> (\<forall>s\<in>set (mcpServers (detect file)).
         truthy (Some (server_command s))
         \<and> server_command s \<noteq> JNull \<and> server_command s \<noteq> JString [])"
proof (intro conjI allI impI ballI)
  assume "read_property config ''command'' = None \<and> read_property config ''url'' = None"
  then show "parseServerConfig name config file = None"
    by (simp add: parseServerConfig_def when_truthy_def)
next
  assume a: "\<not> truthy (read_property config ''command'') \<and> truthy (read_property config ''url'')"
  then obtain u where u: "read_property config ''url'' = Some u"
    by (cases "read_property config ''url''") auto
  show "\<exists>s. parseServerConfig name config file = Some s
               \<and> read_property config ''url'' = Some (server_command s)"
    using a u by (simp add: parseServerConfig_def when_truthy_def createMcpServer_def)
next
  fix s assume "parseServerConfig name config file = Some s"
  then show "truthy (Some (server_command s))" by (rule parseServerConfig_truthy)
next
  fix s assume "s \<in> set (mcpServers (detect file))"
  then obtain k c where "parseServerConfig k c file = Some s"
    using detect_server_origin by blast
  then have t: "truthy (Some (server_command s))" by (rule parseServerConfig_truthy)
  then show "truthy (Some (server_command s))" .
  from t show "server_command s \<noteq> JNull" using truthy_nonempty by blast
  from t show "server_command s \<noteq> JString []" using truthy_nonempty by blast
qed

theorem parseServerConfig_command_witness:
  \<open>detect \<lparr> path = ''/repo/mcp.json'', relativePath = ''mcp.json'', extension = ''.json'',
            content = ''{"mcpServers": {"web": {"url": "http://x"}, "none": {"args": []}}}'' \<rparr>
   = \<lparr> tools = [], agents = [],
       mcpServers = [\<lparr> server_name = units ''web'',
                       server_command = JString (units ''http://x''),
                       server_args = None, server_env = None,
                       server_source = ''mcp.json'', server_tools = None \<rparr>] \<rparr>
   \<and> truthy (Some (JString (units ''http://x'')))
   \<and> parseServerConfig (units ''none'') (JObject [(units ''args'', JArray [])])
        \<lparr> path = ''/repo/mcp.json'', relativePath = ''mcp.json'', extension = ''.json'',
          content = ''{"mcpServers": {"web": {"url": "http://x"}, "none": {"args": []}}}'' \<rparr> = None\<close>
  (is "detect ?f = ?r \<and> ?t \<and> parseServerConfig ?k ?c ?f = None")
proof -
  have d: "detect ?f = ?r" by code_simp
  have "\<forall>s\<in>set (mcpServers (detect ?f)). truthy (Some (server_command s))
         \<and> server_command s \<noteq> JNull \<and> server_command s \<noteq> JString []"
    using parseServerConfig_command [of ?c ?k ?f] by blast
  then have t: ?t unfolding d by simp
  have "read_property ?c ''command'' = None \<and> read_property ?c ''url'' = None" by code_simp
  then have n: "parseServerConfig ?k ?c ?f = None"
    using parseServerConfig_command [of ?c ?k ?f] by blast
  show ?thesis by (intro conjI) (rule d, rule t, rule n)
qed

text \<open>
  Claim C10, that every server the detector reports has a non-empty command (its command
  string, or its url string), fails on the code.  \<open>parseServerConfig\<close> tests \<open>command\<close> and
  \<open>url\<close> for truthiness only, and the parsed file is cast to \<open>McpConfigContent\<close> unchecked:
  an entry whose command is the empty array gives a server with that command, and an entry
  whose url is the empty object gives a server whose command is that object.  This is the
  missing check of the shape that claim C8 fails on.
\<close>

theorem detect_empty_command_emitted:
  \<open>detect \<lparr> path = ''/repo/mcp.json'', relativePath = ''mcp.json'', extension = ''.json'',
            content = ''{"mcpServers": {"fs": {"command": []}, "web": {"url": {}}}}'' \<rparr>
   = \<lparr> tools = [], agents = [],
       mcpServers = [\<lparr> server_name = units ''fs'',
                       server_command = JArray [],
                       server_args = None, server_env = None,
                       server_source = ''mcp.json'', server_tools = None \<rparr>,
                     \<lparr> server_name = units ''web'',
                       server_command = JObject [],
                       server_args = None, server_env = None,
                       server_source = ''mcp.json'', server_tools = None \<rparr>] \<rparr>\<close>
  by code_simp

section \<open>Framework attribution in the source detectors\<close>

text \<open>
  The import patterns of the Python detector and of the TypeScript detector.  They are
  members of the module-level object \<open>PATTERNS\<close>, written with the flag \<open>g\<close>, and
  \<open>detectFramework\<close> calls \<open>test\<close> on these objects themselves.
\<close>

definition py_mcpImport :: RegExp where
  "py_mcpImport =
     \<lparr> alternatives =
         [[Lit ''from'', Plus is_space, Lit ''mcp'', Star is_dot_word, Plus is_space, Lit ''import''],
          [Lit ''import'', Plus is_space, Lit ''mcp''],
          [Lit ''from'', Plus is_space, Lit ''fastmcp'', Plus is_space, Lit ''import'']],
       ignoreCase = False \<rparr>"

definition py_langGraphImport :: RegExp where
  "py_langGraphImport =
     \<lparr> alternatives =
         [[Lit ''from'', Plus is_space, Lit ''langgraph'', Star is_dot_word, Plus is_space, Lit ''import''],
          [Lit ''import'', Plus is_space, Lit ''langgraph'']],
       ignoreCase = False \<rparr>"

definition py_crewAiImport :: RegExp where
  "py_crewAiImport =
     \<lparr> alternatives =
         [[Lit ''from'', Plus is_space, Lit ''crewai'', Star is_dot_word, Plus is_space, Lit ''import''],
          [Lit ''import'', Plus is_space, Lit ''crewai'']],
       ignoreCase = False \<rparr>"

definition py_autoGenImport :: RegExp where
  "py_autoGenImport =
     \<lparr> alternatives =
         [[Lit ''from'', Plus is_space, Lit ''autogen'', Star is_dot_word, Plus is_space, Lit ''import''],
          [Lit ''import'', Plus is_space, Lit ''autogen'']],
       ignoreCase = False \<rparr>"

definition py_langchainImport :: RegExp where
  "py_langchainImport =
     \<lparr> alternatives =
         [[Lit ''from'', Plus is_space, Lit ''langchain'', Star is_dot_word, Plus is_space, Lit ''import''],
          [Lit ''import'', Plus is_space, Lit ''langchain'']],
       ignoreCase = False \<rparr>"

definition ts_mcpImport :: RegExp where
  "ts_mcpImport =
     \<lparr> alternatives =
         [[Lit ''from'', Plus is_space, One is_quote, Lit ''@modelcontextprotocol/sdk'', One is_quote],
          [Lit ''from'', Plus is_space, One is_quote, Lit ''mcp'', One is_quote]],
       ignoreCase = False \<rparr>"

definition ts_langchainImport :: RegExp where
  "ts_langchainImport =
     \<lparr> alternatives =
         [[Lit ''from'', Plus is_space, One is_quote, Lit ''@langchain/'', Plus not_quote, One is_quote],
          [Lit ''from'', Plus is_space, One is_quote, Lit ''langchain'', Star not_quote, One is_quote]],
       ignoreCase = False \<rparr>"

text \<open>
  The state these calls read and write: the \<open>lastIndex\<close> of each pattern object.  It lives
  as long as the module, so through all files of a scan.
\<close>

record PyPatterns =
  mcpImport_lastIndex :: nat
  langGraphImport_lastIndex :: nat
  crewAiImport_lastIndex :: nat
  autoGenImport_lastIndex :: nat
  langchainImport_lastIndex :: nat

record TsPatterns =
  ts_mcpImport_lastIndex :: nat
  ts_langchainImport_lastIndex :: nat

definition py_initial :: PyPatterns where
  "py_initial = \<lparr> mcpImport_lastIndex = 0, langGraphImport_lastIndex = 0,
                   crewAiImport_lastIndex = 0, autoGenImport_lastIndex = 0,
                   langchainImport_lastIndex = 0 \<rparr>"

definition ts_initial :: TsPatterns where
  "ts_initial = \<lparr> ts_mcpImport_lastIndex = 0, ts_langchainImport_lastIndex = 0 \<rparr>"

text \<open>\<open>PythonDetector.detectFramework\<close>: the framework and the pattern objects after the call.\<close>

definition py_detectFramework :: "string \<Rightarrow> PyPatterns \<Rightarrow> Framework \<times> PyPatterns" where
  "py_detectFramework text st0 =
     (let (r1, i1) = regexp_test_global py_mcpImport text (mcpImport_lastIndex st0);
          st1 = st0 \<lparr> mcpImport_lastIndex := i1 \<rparr>
      in if r1 then (FW_mcp, st1) else
     (let (r2, i2) = regexp_test_global py_langGraphImport text (langGraphImport_lastIndex st1);
          st2 = st1 \<lparr> langGraphImport_lastIndex := i2 \<rparr>
      in if r2 then (FW_langraph, st2) else
     (let (r3, i3) = regexp_test_global py_crewAiImport text (crewAiImport_lastIndex st2);
          st3 = st2 \<lparr> crewAiImport_lastIndex := i3 \<rparr>
      in if r3 then (FW_crewai, st3) else
     (let (r4, i4) = regexp_test_global py_autoGenImport text (autoGenImport_lastIndex st3);
          st4 = st3 \<lparr> autoGenImport_lastIndex := i4 \<rparr>
      in if r4 then (FW_autogen, st4) else
     (let (r5, i5) = regexp_test_global py_langchainImport text (langchainImport_lastIndex st4);
          st5 = st4 \<lparr> langchainImport_lastIndex := i5 \<rparr>
      in if r5 then (FW_custom, st5) else (FW_unknown, st5))))))"

text \<open>\<open>TypeScriptDetector.detectFramework\<close>.\<close>

definition ts_detectFramework :: "string \<Rightarrow> TsPatterns \<Rightarrow> Framework \<times> TsPatterns" where
  "ts_detectFramework text st0 =
     (let (r1, i1) = regexp_test_global ts_mcpImport text (ts_mcpImport_lastIndex st0);
          st1 = st0 \<lparr> ts_mcpImport_lastIndex := i1 \<rparr>
      in if r1 then (FW_mcp, st1) else
     (let (r2, i2) = regexp_test_global ts_langchainImport text (ts_langchainImport_lastIndex st1);
          st2 = st1 \<lparr> ts_langchainImport_lastIndex := i2 \<rparr>
      in if r2 then (FW_custom, st2) else (FW_unknown, st2)))"

text \<open>
  Claim C2, that the batch of a detector depends on the content of the file alone and not
  on the files scanned before it, does not hold of the code.  The Python file
  \<open>import mcp\<close>, \<open>t = Tool(name="search")\<close> (two lines) is scanned twice by the same detector.
  The first scan finds the import and leaves the pattern's \<open>lastIndex\<close> at 10; the second
  scan starts its search there, misses the import and reports \<open>unknown\<close>.  The tool that
  \<open>detectToolCollections\<close> builds for \<open>Tool(name="search")\<close> carries the framework of its
  scan, so the two batches differ.  The TypeScript detector does the same for
  \<open>import { x } from "mcp"\<close>.
\<close>

theorem detectFramework_keeps_state:
  \<open>fst (py_detectFramework (''import mcp'' @ [CHR 0x0A] @ ''t = Tool(name="search")'' @ [CHR 0x0A])
          py_initial) = FW_mcp
   \<and> mcpImport_lastIndex
        (snd (py_detectFramework (''import mcp'' @ [CHR 0x0A] @ ''t = Tool(name="search")'' @ [CHR 0x0A])
          py_initial)) = 10
   \<and> fst (py_detectFramework (''import mcp'' @ [CHR 0x0A] @ ''t = Tool(name="search")'' @ [CHR 0x0A])
          (snd (py_detectFramework
                  (''import mcp'' @ [CHR 0x0A] @ ''t = Tool(name="search")'' @ [CHR 0x0A]) py_initial)))
       = FW_unknown
   \<and> tool_framework (py_createToolFromName Map.empty ''search''
          \<lparr> path = ''/repo/a.py'', relativePath = ''a.py'', extension = ''.py'',
            content = ''import mcp'' @ [CHR 0x0A] @ ''t = Tool(name="search")'' @ [CHR 0x0A] \<rparr> 2 FW_mcp)
       \<noteq> tool_framework (py_createToolFromName Map.empty ''search''
          \<lparr> path = ''/repo/a.py'', relativePath = ''a.py'', extension = ''.py'',
            content = ''import mcp'' @ [CHR 0x0A] @ ''t = Tool(name="search")'' @ [CHR 0x0A] \<rparr> 2 FW_unknown)
   \<and> fst (ts_detectFramework ''import { x } from "mcp";'' ts_initial) = FW_mcp
   \<and> fst (ts_detectFramework ''import { x } from "mcp";''
          (snd (ts_detectFramework ''import { x } from "mcp";'' ts_initial))) = FW_unknown\<close>
  by code_simp

end
